theory Spec2Isabelle
  imports Complex_Main "HOL-Library.Word"
begin

section \<open>The glove controller of glove\_mqtt.cpp\<close>

text \<open>
  The program is one Arduino sketch for a 32-bit board: \<^verbatim>\<open>int\<close> and
  \<^verbatim>\<open>unsigned long\<close> are 32 bits wide. Both are modelled as \<open>32 word\<close>; a signed
  comparison of the source is written with \<open><s\<close>, an unsigned one with \<open>\<le>\<close>.

  The model covers \<^verbatim>\<open>loop()\<close> and every function it calls. \<^verbatim>\<open>setup()\<close> is
  left out: the theorems about an iteration hold from every state, whatever came before.
\<close>

type_synonym c_int = "32 word"
type_synonym c_ulong = "32 word"

subsection \<open>Constants of the sketch\<close>

definition HIGH :: c_int where "HIGH = 1"
definition LOW :: c_int where "LOW = 0"

definition FLEX_SENSOR_1_PIN :: c_int where "FLEX_SENSOR_1_PIN = 36"
definition FLEX_SENSOR_2_PIN :: c_int where "FLEX_SENSOR_2_PIN = 39"
definition TOUCH_SENSOR_1_PIN :: c_int where "TOUCH_SENSOR_1_PIN = 4"
definition TOUCH_SENSOR_2_PIN :: c_int where "TOUCH_SENSOR_2_PIN = 14"

definition GESTURE_FIST :: c_int where "GESTURE_FIST = 0x01"
definition GESTURE_OPEN_HAND :: c_int where "GESTURE_OPEN_HAND = 0x02"
definition GESTURE_LEFT :: c_int where "GESTURE_LEFT = 0x03"
definition GESTURE_RIGHT :: c_int where "GESTURE_RIGHT = 0x04"

definition ssid :: string where "ssid = ''Your_WiFi_SSID''"
definition password :: string where "password = ''Your_WiFi_Password''"
definition mqttTopic :: string where "mqttTopic = ''robotic_arm/commands''"
definition readInterval :: c_ulong where "readInterval = 500"

subsection \<open>Floating-point readings\<close>

text \<open>
  The sketch only compares the accelerometer reading with the constants \<open>-5.0\<close> and
  \<open>5.0\<close>; it does no floating-point arithmetic. A \<^verbatim>\<open>float\<close> is therefore modelled by
  its value: a real number, an infinity, or NaN. Promotion of a \<^verbatim>\<open>float\<close> to
  \<^verbatim>\<open>double\<close> is exact, so \<open>float_less\<close> is the comparison \<^verbatim>\<open><\<close> of the source:
  false whenever an operand is NaN.
\<close>

datatype cfloat = Finite real | PosInf | NegInf | NaN

fun float_less :: "cfloat \<Rightarrow> cfloat \<Rightarrow> bool" where
  "float_less NaN y = False"
| "float_less x NaN = False"
| "float_less (Finite a) (Finite b) = (a < b)"
| "float_less (Finite a) PosInf = True"
| "float_less (Finite a) NegInf = False"
| "float_less NegInf NegInf = False"
| "float_less NegInf y = True"
| "float_less PosInf y = False"

subsection \<open>The readings of one sampling tick\<close>

text \<open>The local variables of \<^verbatim>\<open>detectGesture\<close>, in the order they are read.\<close>

record SensorFrame =
  flex1 :: c_int
  flex2 :: c_int
  accelX :: cfloat
  accelY :: cfloat
  accelZ :: cfloat
  touch1 :: c_int
  touch2 :: c_int

subsection \<open>The boundary: calls to the libraries and what they answer\<close>

text \<open>
  Every call that leaves the sketch is recorded as an event, with the answer it got.
  \<open>SerialPrint\<close> and \<open>SerialPrintln\<close> carry the text of a diagnostic;
  \<open>SerialPrintlnState\<close> and \<open>SerialDebug\<close> stand for the diagnostics that print
  numbers (the MQTT client state, the seven sensor values). \<open>SerialDebug\<close> carries
  the values as \<^verbatim>\<open>detectGesture\<close> passes them; \<^verbatim>\<open>debugSensors\<close> takes the two
  flex readings as \<^verbatim>\<open>float\<close>, which is exact for every reading below \<open>2^24\<close>, and
  the text it prints is not modelled.
\<close>

datatype event =
    WifiBegin string string
  | WifiStatus bool
  | Delay nat
  | MqttConnected bool
  | MqttConnectCall string
  | MqttConnectResult bool
  | MqttState c_int
  | Millis c_ulong
  | AnalogRead c_int c_int
  | DigitalRead c_int c_int
  | MpuEvent cfloat cfloat cfloat
  | Publish string string bool
  | SerialPrint string
  | SerialPrintln string
  | SerialPrintlnState c_int
  | SerialDebug SensorFrame

text \<open>
  The libraries are not part of the sketch. What they answer is a parameter of the model:
  the answer to the \<open>n\<close>-th answered call, for every \<open>n\<close>. \<open>wifi_connected E n\<close>
  is the truth value of \<^verbatim>\<open>WiFi.status() == WL_CONNECTED\<close>.
\<close>

record env =
  wifi_connected :: "nat \<Rightarrow> bool"
  mqtt_connected :: "nat \<Rightarrow> bool"
  mqtt_connect :: "nat \<Rightarrow> string \<Rightarrow> bool"
  mqtt_state :: "nat \<Rightarrow> c_int"
  mqtt_publish :: "nat \<Rightarrow> string \<Rightarrow> string \<Rightarrow> bool"
  millis :: "nat \<Rightarrow> c_ulong"
  analogRead :: "nat \<Rightarrow> c_int \<Rightarrow> c_int"
  digitalRead :: "nat \<Rightarrow> c_int \<Rightarrow> c_int"
  mpu_getEvent :: "nat \<Rightarrow> cfloat \<times> cfloat \<times> cfloat"

text \<open>
  The state of the sketch: the global \<^verbatim>\<open>lastReadTime\<close>, the number of calls
  answered so far, and the events so far (written, never read).
\<close>

record world =
  now :: nat
  lastReadTime :: c_ulong
  trace :: "event list"

definition emit :: "event \<Rightarrow> world \<Rightarrow> world" where
  "emit e s = s\<lparr>trace := trace s @ [e]\<rparr>"

definition answered :: "event \<Rightarrow> world \<Rightarrow> world" where
  "answered e s = s\<lparr>now := Suc (now s), trace := trace s @ [e]\<rparr>"

subsection \<open>Sensor reads\<close>

definition readFlexSensor :: "env \<Rightarrow> c_int \<Rightarrow> world \<Rightarrow> c_int \<times> world" where
  "readFlexSensor E pin s =
     (let v = analogRead E (now s) pin in (v, answered (AnalogRead pin v) s))"

definition readMPU6050 :: "env \<Rightarrow> world \<Rightarrow> (cfloat \<times> cfloat \<times> cfloat) \<times> world" where
  "readMPU6050 E s =
     (case mpu_getEvent E (now s) of (x, y, z) \<Rightarrow> ((x, y, z), answered (MpuEvent x y z) s))"

definition debounceTouchSensor :: "env \<Rightarrow> c_int \<Rightarrow> world \<Rightarrow> c_int \<times> world" where
  "debounceTouchSensor E pin s =
     (let stableValue = digitalRead E (now s) pin;
          s1 = answered (DigitalRead pin stableValue) s;
          s2 = emit (Delay 50) s1;
          second = digitalRead E (now s2) pin;
          s3 = answered (DigitalRead pin second) s2
      in if second = stableValue then (stableValue, s3) else (LOW, s3))"

definition debugSensors :: "SensorFrame \<Rightarrow> world \<Rightarrow> world" where
  "debugSensors f s = emit (SerialDebug f) s"

subsection \<open>The classifier\<close>

text \<open>The chain of conditions that ends \<^verbatim>\<open>detectGesture\<close>, on the values just read.\<close>

definition classify :: "SensorFrame \<Rightarrow> c_int" where
  "classify f =
     (if flex1 f <s 500 \<and> flex2 f <s 500 \<and> touch1 f = HIGH then GESTURE_FIST
      else if 2000 <s flex1 f \<and> 2000 <s flex2 f \<and> touch2 f = HIGH then GESTURE_OPEN_HAND
      else if float_less (accelX f) (Finite (- 5)) then GESTURE_LEFT
      else if float_less (Finite 5) (accelX f) then GESTURE_RIGHT
      else 0)"

definition detectGesture :: "env \<Rightarrow> world \<Rightarrow> c_int \<times> world" where
  "detectGesture E s =
     (case readFlexSensor E FLEX_SENSOR_1_PIN s of (f1, s1) \<Rightarrow>
      case readFlexSensor E FLEX_SENSOR_2_PIN s1 of (f2, s2) \<Rightarrow>
      case readMPU6050 E s2 of ((x, y, z), s3) \<Rightarrow>
      case debounceTouchSensor E TOUCH_SENSOR_1_PIN s3 of (t1, s4) \<Rightarrow>
      case debounceTouchSensor E TOUCH_SENSOR_2_PIN s4 of (t2, s5) \<Rightarrow>
        (let f = \<lparr>flex1 = f1, flex2 = f2, accelX = x, accelY = y, accelZ = z,
                  touch1 = t1, touch2 = t2\<rparr>
         in (classify f, debugSensors f s5)))"

subsection \<open>The publisher\<close>

text \<open>
  \<^verbatim>\<open>snprintf(message, sizeof(message), "0x%02X", gestureCode)\<close>: the conversion
  \<^verbatim>\<open>%02X\<close> prints the argument, read as unsigned, in upper-case hexadecimal, padded
  with zeros to two digits; \<^verbatim>\<open>snprintf\<close> keeps at most \<open>n - 1\<close> characters
  for a buffer of \<open>n\<close> bytes.
\<close>

definition hex_digit :: "nat \<Rightarrow> char" where
  "hex_digit d = ''0123456789ABCDEF'' ! d"

fun hex_upper :: "nat \<Rightarrow> string" where
  "hex_upper n = (if n < 16 then [hex_digit n] else hex_upper (n div 16) @ [hex_digit (n mod 16)])"

declare hex_upper.simps [simp del]

definition zero_pad :: "nat \<Rightarrow> string \<Rightarrow> string" where
  "zero_pad w str = replicate (w - length str) (CHR ''0'') @ str"

definition format_0x02X :: "c_int \<Rightarrow> string" where
  "format_0x02X v = ''0x'' @ zero_pad 2 (hex_upper (unat v))"

definition snprintf_0x02X :: "nat \<Rightarrow> c_int \<Rightarrow> string" where
  "snprintf_0x02X n v = take (n - 1) (format_0x02X v)"

definition publishGesture :: "env \<Rightarrow> c_int \<Rightarrow> world \<Rightarrow> world" where
  "publishGesture E gestureCode s =
     (let message = snprintf_0x02X 10 gestureCode;
          ok = mqtt_publish E (now s) mqttTopic message;
          s1 = answered (Publish mqttTopic message ok) s
      in if \<not> ok then emit (SerialPrintln ''Failed to publish gesture code!'') s1
         else emit (SerialPrintln message) (emit (SerialPrint ''Published gesture code: '') s1))"

subsection \<open>Connectivity\<close>

text \<open>
  The two \<^verbatim>\<open>while\<close> loops wait for the library to report success; nothing bounds them.
  A run that never leaves the loop is the value \<open>None\<close>.
\<close>

partial_function (option) connectToWiFi_while :: "env \<Rightarrow> world \<Rightarrow> world option" where
  "connectToWiFi_while E s =
     (let up = wifi_connected E (now s);
          s1 = answered (WifiStatus up) s
      in if \<not> up then connectToWiFi_while E (emit (SerialPrint ''.'') (emit (Delay 500) s1))
         else Some s1)"

declare connectToWiFi_while.simps [code]

definition connectToWiFi :: "env \<Rightarrow> world \<Rightarrow> world option" where
  "connectToWiFi E s =
     (let s1 = emit (SerialPrint ''Connecting to Wi-Fi: '') s;
          s2 = emit (SerialPrintln ssid) s1;
          s3 = emit (WifiBegin ssid password) s2
      in case connectToWiFi_while E s3 of
           None \<Rightarrow> None
         | Some s4 \<Rightarrow> Some (emit (SerialPrintln (CHR 0x0A # ''Wi-Fi Connected.'')) s4))"

definition ensureWiFiConnection :: "env \<Rightarrow> world \<Rightarrow> world option" where
  "ensureWiFiConnection E s =
     (let up = wifi_connected E (now s);
          s1 = answered (WifiStatus up) s
      in if \<not> up then connectToWiFi E s1 else Some s1)"

partial_function (option) connectToMQTT :: "env \<Rightarrow> world \<Rightarrow> world option" where
  "connectToMQTT E s =
     (let c = mqtt_connected E (now s);
          s1 = answered (MqttConnected c) s
      in if \<not> c then
           (let s2 = emit (MqttConnectCall ''ESP32'') (emit (SerialPrint ''Connecting to MQTT...'') s1);
                ok = mqtt_connect E (now s2) ''ESP32'';
                s3 = answered (MqttConnectResult ok) s2
            in if ok then connectToMQTT E (emit (SerialPrintln ''Connected to MQTT Broker.'') s3)
               else
                 (let s4 = emit (SerialPrint ''Failed. State='') s3;
                      st = mqtt_state E (now s4);
                      s5 = emit (SerialPrintlnState st) (answered (MqttState st) s4)
                  in connectToMQTT E (emit (Delay 2000) s5)))
         else Some s1)"

declare connectToMQTT.simps [code]

definition ensureMQTTConnection :: "env \<Rightarrow> world \<Rightarrow> world option" where
  "ensureMQTTConnection E s =
     (let c = mqtt_connected E (now s);
          s1 = answered (MqttConnected c) s
      in if \<not> c then connectToMQTT E s1 else Some s1)"

subsection \<open>The main loop\<close>

text \<open>One iteration of \<^verbatim>\<open>loop()\<close>. The subtraction and the comparison are unsigned.\<close>

definition loop :: "env \<Rightarrow> world \<Rightarrow> world option" where
  "loop E s =
     (case ensureWiFiConnection E s of
        None \<Rightarrow> None
      | Some s1 \<Rightarrow>
     (case ensureMQTTConnection E s1 of
        None \<Rightarrow> None
      | Some s2 \<Rightarrow>
        (let currentTime = millis E (now s2);
             s3 = answered (Millis currentTime) s2
         in if currentTime - lastReadTime s3 \<ge> readInterval then
              (case detectGesture E (s3\<lparr>lastReadTime := currentTime\<rparr>) of
                 (gestureCode, s4) \<Rightarrow>
                   if gestureCode \<noteq> 0 then Some (publishGesture E gestureCode s4) else Some s4)
            else Some s3)))"

text \<open>
  The first two statements of \<^verbatim>\<open>loop()\<close>: the poll of the connectivity supervisor,
  which the specification calls \<open>ensure_ready\<close>.
\<close>

definition ensure_ready :: "env \<Rightarrow> world \<Rightarrow> world option" where
  "ensure_ready E s =
     (case ensureWiFiConnection E s of None \<Rightarrow> None | Some s1 \<Rightarrow> ensureMQTTConnection E s1)"

subsection \<open>The connectivity state, read off the events\<close>

text \<open>
  The sketch keeps no variable for the state of the link or of the session: it asks the
  libraries. The \<open>ConnectivityState\<close> of the specification is the last answer the
  sketch has got: the link is \<open>Up\<close> after \<^verbatim>\<open>WiFi.status()\<close> answered
  \<^verbatim>\<open>WL_CONNECTED\<close>, the session is \<open>Connected\<close> after
  \<^verbatim>\<open>mqttClient.connected()\<close> or \<^verbatim>\<open>mqttClient.connect\<close> answered true, and
  \<open>Connecting\<close> between the call of \<^verbatim>\<open>connect\<close> and its answer.
\<close>

datatype LinkState = Down | Up
datatype SessionState = Disconnected | Connecting | Connected

fun link_step :: "LinkState \<Rightarrow> event \<Rightarrow> LinkState" where
  "link_step l (WifiStatus up) = (if up then Up else Down)"
| "link_step l e = l"

fun session_step :: "SessionState \<Rightarrow> event \<Rightarrow> SessionState" where
  "session_step c (MqttConnected b) = (if b then Connected else Disconnected)"
| "session_step c (MqttConnectCall i) = Connecting"
| "session_step c (MqttConnectResult ok) = (if ok then Connected else Disconnected)"
| "session_step c e = c"

definition conn_step :: "LinkState \<times> SessionState \<Rightarrow> event \<Rightarrow> LinkState \<times> SessionState" where
  "conn_step c e = (link_step (fst c) e, session_step (snd c) e)"

text \<open>The states passed through along a list of events, the first and the last included.\<close>

fun conn_states :: "LinkState \<times> SessionState \<Rightarrow> event list \<Rightarrow> (LinkState \<times> SessionState) list" where
  "conn_states c [] = [c]"
| "conn_states c (e # es) = c # conn_states (conn_step c e) es"

fun is_link_event :: "event \<Rightarrow> bool" where
  "is_link_event (WifiStatus up) = True"
| "is_link_event e = False"

fun is_publish :: "event \<Rightarrow> bool" where
  "is_publish (Publish t m ok) = True"
| "is_publish e = False"

text \<open>The calls to the session layer: status, connect and send.\<close>

fun is_session_event :: "event \<Rightarrow> bool" where
  "is_session_event (MqttConnected b) = True"
| "is_session_event (MqttConnectCall i) = True"
| "is_session_event (MqttConnectResult ok) = True"
| "is_session_event (MqttState st) = True"
| "is_session_event (Publish t m ok) = True"
| "is_session_event e = False"

text \<open>The waits of the two connect loops: 500 ms for the link, 2000 ms for the session.\<close>

fun is_retry_wait :: "event \<Rightarrow> bool" where
  "is_retry_wait (Delay n) = (n = 500 \<or> n = 2000)"
| "is_retry_wait e = False"

definition retry_rounds :: "event list \<Rightarrow> nat" where
  "retry_rounds es = length (filter is_retry_wait es)"

fun is_sensor_read :: "event \<Rightarrow> bool" where
  "is_sensor_read (AnalogRead p v) = True"
| "is_sensor_read (DigitalRead p v) = True"
| "is_sensor_read (MpuEvent x y z) = True"
| "is_sensor_read e = False"

text \<open>
  \<open>session_only_when_up l es\<close>: along \<open>es\<close>, started with the link in state \<open>l\<close>,
  every call to the session layer happens while the link is \<open>Up\<close>.
\<close>

fun session_only_when_up :: "LinkState \<Rightarrow> event list \<Rightarrow> bool" where
  "session_only_when_up l [] = True"
| "session_only_when_up l (e # es) =
     ((if is_session_event e then l = Up else True) \<and> session_only_when_up (link_step l e) es)"

text \<open>
  \<open>sends_only_connected c es\<close>: along \<open>es\<close>, started with the session in state
  \<open>c\<close>, every send happens while the session is \<open>Connected\<close>.
\<close>

fun sends_only_connected :: "SessionState \<Rightarrow> event list \<Rightarrow> bool" where
  "sends_only_connected c [] = True"
| "sends_only_connected c (e # es) =
     ((if is_publish e then c = Connected else True) \<and> sends_only_connected (session_step c e) es)"

fun payloads :: "event list \<Rightarrow> string list" where
  "payloads [] = []"
| "payloads (Publish t m ok # es) = m # payloads es"
| "payloads (e # es) = payloads es"

subsection \<open>One iteration, after the connectivity calls\<close>

text \<open>
  The statements of \<^verbatim>\<open>loop()\<close> that follow the two connectivity calls. They
  always return; \<open>loop_split\<close> below shows that \<open>loop\<close> is \<open>ensure_ready\<close>
  followed by them.
\<close>

definition tick_body :: "env \<Rightarrow> world \<Rightarrow> world" where
  "tick_body E s2 =
     (let currentTime = millis E (now s2);
          s3 = answered (Millis currentTime) s2
      in if currentTime - lastReadTime s3 \<ge> readInterval then
           (case detectGesture E (s3\<lparr>lastReadTime := currentTime\<rparr>) of
              (gestureCode, s4) \<Rightarrow>
                if gestureCode \<noteq> 0 then publishGesture E gestureCode s4 else s4)
         else s3)"

text \<open>The events added between two states.\<close>

definition new_events :: "world \<Rightarrow> world \<Rightarrow> event list" where
  "new_events s s' = drop (length (trace s)) (trace s')"

subsection \<open>What one run of the sensing reads\<close>

text \<open>
  \<open>debounced r1 r2\<close> is what \<^verbatim>\<open>debounceTouchSensor\<close> returns when its two reads
  answer \<open>r1\<close> and \<open>r2\<close>; \<open>frame_at E n\<close> is the frame \<^verbatim>\<open>detectGesture\<close>
  assembles when it starts at call \<open>n\<close>, and \<open>sense_events E n\<close> are its events.
  \<open>detectGesture_eq\<close> below proves that these describe \<open>detectGesture\<close>.
\<close>

definition debounced :: "c_int \<Rightarrow> c_int \<Rightarrow> c_int" where
  "debounced r1 r2 = (if r2 = r1 then r1 else LOW)"

definition frame_at :: "env \<Rightarrow> nat \<Rightarrow> SensorFrame" where
  "frame_at E n =
     \<lparr>flex1 = analogRead E n FLEX_SENSOR_1_PIN,
      flex2 = analogRead E (n + 1) FLEX_SENSOR_2_PIN,
      accelX = fst (mpu_getEvent E (n + 2)),
      accelY = fst (snd (mpu_getEvent E (n + 2))),
      accelZ = snd (snd (mpu_getEvent E (n + 2))),
      touch1 = debounced (digitalRead E (n + 3) TOUCH_SENSOR_1_PIN)
                         (digitalRead E (n + 4) TOUCH_SENSOR_1_PIN),
      touch2 = debounced (digitalRead E (n + 5) TOUCH_SENSOR_2_PIN)
                         (digitalRead E (n + 6) TOUCH_SENSOR_2_PIN)\<rparr>"

definition sense_events :: "env \<Rightarrow> nat \<Rightarrow> event list" where
  "sense_events E n =
     [AnalogRead FLEX_SENSOR_1_PIN (analogRead E n FLEX_SENSOR_1_PIN),
      AnalogRead FLEX_SENSOR_2_PIN (analogRead E (n + 1) FLEX_SENSOR_2_PIN),
      MpuEvent (fst (mpu_getEvent E (n + 2))) (fst (snd (mpu_getEvent E (n + 2))))
               (snd (snd (mpu_getEvent E (n + 2)))),
      DigitalRead TOUCH_SENSOR_1_PIN (digitalRead E (n + 3) TOUCH_SENSOR_1_PIN),
      Delay 50,
      DigitalRead TOUCH_SENSOR_1_PIN (digitalRead E (n + 4) TOUCH_SENSOR_1_PIN),
      DigitalRead TOUCH_SENSOR_2_PIN (digitalRead E (n + 5) TOUCH_SENSOR_2_PIN),
      Delay 50,
      DigitalRead TOUCH_SENSOR_2_PIN (digitalRead E (n + 6) TOUCH_SENSOR_2_PIN),
      SerialDebug (frame_at E n)]"

subsection \<open>Summaries of the connectivity calls\<close>

text \<open>
  \<open>link_summary s s'\<close>: from \<open>s\<close> to \<open>s'\<close> the sketch only talked to the link
  layer and printed, and the last word of the link layer was \<^verbatim>\<open>WL_CONNECTED\<close>.
  \<open>session_summary s s'\<close>: likewise for the session layer, with no send.
\<close>

definition link_summary :: "world \<Rightarrow> world \<Rightarrow> bool" where
  "link_summary s s' =
     (lastReadTime s' = lastReadTime s \<and>
      (\<exists>ev. trace s' = trace s @ ev
         \<and> (\<forall>e\<in>set ev. \<not> is_session_event e \<and> \<not> is_sensor_read e)
         \<and> (\<forall>l. foldl link_step l ev = Up)
         \<and> WifiStatus True \<in> set ev))"

definition session_summary :: "world \<Rightarrow> world \<Rightarrow> bool" where
  "session_summary s s' =
     (lastReadTime s' = lastReadTime s \<and>
      (\<exists>ev. trace s' = trace s @ ev
         \<and> (\<forall>e\<in>set ev. \<not> is_link_event e \<and> \<not> is_publish e \<and> \<not> is_sensor_read e)
         \<and> (\<forall>c. foldl session_step c ev = Connected)
         \<and> MqttConnected True \<in> set ev))"

text \<open>
  The events of \<^verbatim>\<open>publishGesture\<close> called at call \<open>n\<close>, and of the statements after
  the connectivity calls, started at call \<open>n\<close> with \<^verbatim>\<open>lastReadTime\<close> equal to
  \<open>lrt\<close>; \<open>publishGesture_eq\<close> and \<open>tick_body_eq\<close> prove that they are.
\<close>

definition publish_events :: "env \<Rightarrow> nat \<Rightarrow> c_int \<Rightarrow> event list" where
  "publish_events E n g =
     (if mqtt_publish E n mqttTopic (snprintf_0x02X 10 g)
      then [Publish mqttTopic (snprintf_0x02X 10 g) True, SerialPrint ''Published gesture code: '',
            SerialPrintln (snprintf_0x02X 10 g)]
      else [Publish mqttTopic (snprintf_0x02X 10 g) False,
            SerialPrintln ''Failed to publish gesture code!''])"

definition tick_events :: "env \<Rightarrow> nat \<Rightarrow> c_ulong \<Rightarrow> event list" where
  "tick_events E n lrt =
     Millis (millis E n) #
     (if readInterval \<le> millis E n - lrt then
        sense_events E (n + 1) @
        (if classify (frame_at E (n + 1)) \<noteq> 0
         then publish_events E (n + 8) (classify (frame_at E (n + 1))) else [])
      else [])"

subsection \<open>Concrete boundaries and frames\<close>

text \<open>
  \<open>env_ready\<close>: link and session up, every send acknowledged, the clock at 1000 ms,
  both flex sensors at 100, both touch pins high, the hand level. The other boundaries
  change one answer of it.
\<close>

definition env_ready :: env where
  "env_ready =
     \<lparr>wifi_connected = (\<lambda>n. True),
      mqtt_connected = (\<lambda>n. True),
      mqtt_connect = (\<lambda>n i. True),
      mqtt_state = (\<lambda>n. 0),
      mqtt_publish = (\<lambda>n t m. True),
      millis = (\<lambda>n. 1000),
      analogRead = (\<lambda>n p. 100),
      digitalRead = (\<lambda>n p. 1),
      mpu_getEvent = (\<lambda>n. (Finite 0, Finite 0, Finite (98 / 10)))\<rparr>"

definition world_init :: world where
  "world_init = \<lparr>now = 0, lastReadTime = 0, trace = []\<rparr>"

text \<open>A touch pin that bounces: high at even calls, low at odd ones; and one that stays low.\<close>

definition env_bounce :: env where
  "env_bounce = env_ready\<lparr>digitalRead := (\<lambda>n p. if even n then 1 else 0)\<rparr>"

definition env_untouched :: env where
  "env_untouched = env_ready\<lparr>digitalRead := (\<lambda>n p. 0)\<rparr>"

text \<open>The session layer refuses every send.\<close>

definition env_send_fails :: env where
  "env_send_fails = env_ready\<lparr>mqtt_publish := (\<lambda>n t m. False)\<rparr>"

text \<open>The link is down for the first three status calls.\<close>

definition env_link_late :: env where
  "env_link_late = env_ready\<lparr>wifi_connected := (\<lambda>n. 3 \<le> n)\<rparr>"

text \<open>The link is never up.\<close>

definition env_no_link :: env where
  "env_no_link = env_ready\<lparr>wifi_connected := (\<lambda>n. False)\<rparr>"

text \<open>The session is never connected, and every connect is refused.\<close>

definition env_no_session :: env where
  "env_no_session =
     env_ready\<lparr>mqtt_connected := (\<lambda>n. False), mqtt_connect := (\<lambda>n i. False)\<rparr>"

text \<open>
  The clock stays at 0, so no sensing is due; the link is reported lost at call 3, the
  first call of the second iteration, and up again at the next call; the session layer
  reports connected throughout.
\<close>

definition env_link_loss :: env where
  "env_link_loss = env_ready\<lparr>wifi_connected := (\<lambda>n. n \<noteq> 3), millis := (\<lambda>n. 0)\<rparr>"

text \<open>Frames: a fist with the hand tilted left, and the same with \<open>flex1\<close> at 500.\<close>

definition frame_fist_left :: SensorFrame where
  "frame_fist_left =
     \<lparr>flex1 = 100, flex2 = 100, accelX = Finite (- 6), accelY = Finite 0,
      accelZ = Finite (98 / 10), touch1 = 1, touch2 = 0\<rparr>"

definition frame_boundary :: SensorFrame where
  "frame_boundary =
     \<lparr>flex1 = 500, flex2 = 100, accelX = Finite 0, accelY = Finite 0,
      accelZ = Finite (98 / 10), touch1 = 1, touch2 = 0\<rparr>"

text \<open>
  \<open>ready_summary s s'\<close>: what one poll of the supervisor does between \<open>s\<close> and
  \<open>s'\<close>: no send and no sensor read, calls to the session layer only after the link
  answered \<^verbatim>\<open>WL_CONNECTED\<close>, and at the end the link is \<open>Up\<close> and the session
  \<open>Connected\<close>.
\<close>

definition ready_summary :: "world \<Rightarrow> world \<Rightarrow> bool" where
  "ready_summary s s' =
     (lastReadTime s' = lastReadTime s \<and>
      (\<exists>ev. trace s' = trace s @ ev
         \<and> (\<forall>e\<in>set ev. \<not> is_publish e \<and> \<not> is_sensor_read e)
         \<and> session_only_when_up Down ev
         \<and> (\<forall>l. foldl link_step l ev = Up)
         \<and> (\<forall>c. foldl session_step c ev = Connected)
         \<and> WifiStatus True \<in> set ev \<and> MqttConnected True \<in> set ev))"

text \<open>The state after one iteration from \<open>world_init\<close> at \<open>env_ready\<close>, and the definitions a concrete run unfolds.\<close>

definition world_ready_tick :: world where
  "world_ready_tick =
     \<lparr>now = 11, lastReadTime = 1000,
      trace =
        [WifiStatus True, MqttConnected True, Millis 1000, AnalogRead 36 100,
         AnalogRead 39 100, MpuEvent (Finite 0) (Finite 0) (Finite (98 / 10)),
         DigitalRead 4 1, Delay 50, DigitalRead 4 1, DigitalRead 14 1,
         Delay 50, DigitalRead 14 1,
         SerialDebug
          \<lparr>flex1 = 100, flex2 = 100, accelX = Finite 0, accelY = Finite 0,
             accelZ = Finite (98 / 10), touch1 = 1, touch2 = 1\<rparr>,
         Publish ''robotic_arm/commands'' ''0x01'' True,
         SerialPrint ''Published gesture code: '', SerialPrintln ''0x01'']\<rparr>"

text \<open>
  The clock just after its wrap-around: \<^verbatim>\<open>millis()\<close> answers 256 while
  \<^verbatim>\<open>lastReadTime\<close> is \<open>2^32 - 256\<close>, before and after the poll of the
  supervisor; and a state polled at \<open>env_link_loss\<close>, whose clock stays at 0.
\<close>

definition env_wrapped_clock :: env where
  "env_wrapped_clock = env_ready\<lparr>millis := (\<lambda>n. 0x100)\<rparr>"

definition world_before_wrap :: world where
  "world_before_wrap = \<lparr>now = 0, lastReadTime = 0xFFFFFF00, trace = []\<rparr>"

definition world_polled_wrap :: world where
  "world_polled_wrap =
     \<lparr>now = 2, lastReadTime = 0xFFFFFF00, trace = [WifiStatus True, MqttConnected True]\<rparr>"

definition world_polled :: world where
  "world_polled = \<lparr>now = 2, lastReadTime = 0, trace = [WifiStatus True, MqttConnected True]\<rparr>"

text \<open>
  The guards of the four rules, with the thresholds as parameters. The sketch has the
  thresholds 500, 2000, -5.0 and 5.0 written into \<^verbatim>\<open>detectGesture\<close>;
  \<open>classify_guards\<close> below shows that \<open>classify\<close> is the chain of these guards at
  those values.
\<close>

definition fist_guard :: "c_int \<Rightarrow> SensorFrame \<Rightarrow> bool" where
  "fist_guard fist_max f = (flex1 f <s fist_max \<and> flex2 f <s fist_max \<and> touch1 f = HIGH)"

definition open_hand_guard :: "c_int \<Rightarrow> SensorFrame \<Rightarrow> bool" where
  "open_hand_guard open_min f = (open_min <s flex1 f \<and> open_min <s flex2 f \<and> touch2 f = HIGH)"

definition left_guard :: "real \<Rightarrow> SensorFrame \<Rightarrow> bool" where
  "left_guard left_threshold f = float_less (accelX f) (Finite left_threshold)"

definition right_guard :: "real \<Rightarrow> SensorFrame \<Rightarrow> bool" where
  "right_guard right_threshold f = float_less (Finite right_threshold) (accelX f)"

text \<open>
  The valid sensor ranges: a flex reading of the 12-bit converter lies in 0..4095, a touch
  reading is \<open>LOW\<close> or \<open>HIGH\<close>, and the accelerometer, set to the range of 8 g by
  \<^verbatim>\<open>setup()\<close>, reads a finite value of at most 8 g = 78.4532 m/s/s on each axis.
\<close>

fun in_accel_range :: "cfloat \<Rightarrow> bool" where
  "in_accel_range (Finite a) = (\<bar>a\<bar> \<le> 784532 / 10000)"
| "in_accel_range x = False"

definition valid_frame :: "SensorFrame \<Rightarrow> bool" where
  "valid_frame f =
     (0 \<le>s flex1 f \<and> flex1 f \<le>s 4095 \<and> 0 \<le>s flex2 f \<and> flex2 f \<le>s 4095
      \<and> (touch1 f = LOW \<or> touch1 f = HIGH) \<and> (touch2 f = LOW \<or> touch2 f = HIGH)
      \<and> in_accel_range (accelX f) \<and> in_accel_range (accelY f) \<and> in_accel_range (accelZ f))"

text \<open>The state after the poll at \<open>env_link_late\<close>, from \<open>world_init\<close>.\<close>

definition world_link_late :: world where
  "world_link_late =
     \<lparr>now = 5, lastReadTime = 0,
      trace =
        [WifiStatus False, SerialPrint ''Connecting to Wi-Fi: '',
         SerialPrintln ''Your_WiFi_SSID'',
         WifiBegin ''Your_WiFi_SSID'' ''Your_WiFi_Password'',
         WifiStatus False, Delay 500, SerialPrint ''.'', WifiStatus False,
         Delay 500, SerialPrint ''.'', WifiStatus True,
         SerialPrintln (CHR 0x0A # ''Wi-Fi Connected.''), MqttConnected True]\<rparr>"

text \<open>The session is down at the first seven calls and refuses every connect.\<close>

definition env_session_late :: env where
  "env_session_late =
     env_ready\<lparr>mqtt_connected := (\<lambda>n. 8 \<le> n), mqtt_connect := (\<lambda>n i. False)\<rparr>"

text \<open>
  The states of the run at \<open>env_link_loss\<close>: after the first iteration, after the link
  is back in the second, and after the second iteration.
\<close>

definition world_link_tick1 :: world where
  "world_link_tick1 =
     \<lparr>now = 3, lastReadTime = 0, trace = [WifiStatus True, MqttConnected True, Millis 0]\<rparr>"

definition world_relinked :: world where
  "world_relinked =
     \<lparr>now = 5, lastReadTime = 0,
      trace =
        [WifiStatus True, MqttConnected True, Millis 0, WifiStatus False,
         SerialPrint ''Connecting to Wi-Fi: '', SerialPrintln ''Your_WiFi_SSID'',
         WifiBegin ''Your_WiFi_SSID'' ''Your_WiFi_Password'',
         WifiStatus True, SerialPrintln (CHR 0x0A # ''Wi-Fi Connected.'')]\<rparr>"

definition world_link_tick2 :: world where
  "world_link_tick2 =
     \<lparr>now = 7, lastReadTime = 0,
      trace =
        [WifiStatus True, MqttConnected True, Millis 0, WifiStatus False,
         SerialPrint ''Connecting to Wi-Fi: '', SerialPrintln ''Your_WiFi_SSID'',
         WifiBegin ''Your_WiFi_SSID'' ''Your_WiFi_Password'',
         WifiStatus True, SerialPrintln (CHR 0x0A # ''Wi-Fi Connected.''),
         MqttConnected True, Millis 0]\<rparr>"

text \<open>
  \<open>trace_blind f\<close>: the step \<open>f\<close> never reads the events so far. When it returns,
  then started with another list of events it returns the same state, with the same
  events added to that list.
\<close>

definition trace_blind :: "(world \<Rightarrow> world option) \<Rightarrow> bool" where
  "trace_blind f =
     (\<forall>s s'. f s = Some s' \<longrightarrow>
        (\<exists>ev. trace s' = trace s @ ev
           \<and> (\<forall>t. f (s\<lparr>trace := t\<rparr>) = Some (s'\<lparr>trace := t @ ev\<rparr>))))"

text \<open>
  A send that fails, at \<open>env_send_fails\<close>: the state after it, the state with only the
  call counted, and the state one iteration later.
\<close>

definition world_send_failed :: world where
  "world_send_failed =
     \<lparr>now = 1, lastReadTime = 0,
      trace = [Publish ''robotic_arm/commands'' ''0x01'' False,
               SerialPrintln ''Failed to publish gesture code!'']\<rparr>"

definition world_one_call :: world where
  "world_one_call = \<lparr>now = 1, lastReadTime = 0, trace = []\<rparr>"

definition world_after_failure :: world where
  "world_after_failure =
     \<lparr>now = 12, lastReadTime = 1000,
      trace =
        [Publish ''robotic_arm/commands'' ''0x01'' False,
         SerialPrintln ''Failed to publish gesture code!'', WifiStatus True,
         MqttConnected True, Millis 1000, AnalogRead 36 100,
         AnalogRead 39 100, MpuEvent (Finite 0) (Finite 0) (Finite (98 / 10)),
         DigitalRead 4 1, Delay 50, DigitalRead 4 1, DigitalRead 14 1,
         Delay 50, DigitalRead 14 1,
         SerialDebug
          \<lparr>flex1 = 100, flex2 = 100, accelX = Finite 0, accelY = Finite 0,
             accelZ = Finite (98 / 10), touch1 = 1, touch2 = 1\<rparr>,
         Publish ''robotic_arm/commands'' ''0x01'' False,
         SerialPrintln ''Failed to publish gesture code!'']\<rparr>"

text \<open>
  The waits of the link loop (500 ms) and of the session loop (2000 ms), counted apart,
  and the answers that lead to them: a link status other than \<^verbatim>\<open>WL_CONNECTED\<close>,
  a connect that the session layer refuses.
\<close>

definition link_waits :: "event list \<Rightarrow> nat" where
  "link_waits es = count_list es (Delay 500)"

definition session_waits :: "event list \<Rightarrow> nat" where
  "session_waits es = count_list es (Delay 2000)"

definition failed_link_checks :: "event list \<Rightarrow> nat" where
  "failed_link_checks es = count_list es (WifiStatus False)"

definition refused_connects :: "event list \<Rightarrow> nat" where
  "refused_connects es = count_list es (MqttConnectResult False)"

text \<open>
  \<open>wait_summary k s s'\<close>: between \<open>s\<close> and \<open>s'\<close> there is one wait of 500 ms for
  every failed link check but \<open>k\<close> of them, and one wait of 2000 ms for every refused
  connect.
\<close>

definition wait_summary :: "nat \<Rightarrow> world \<Rightarrow> world \<Rightarrow> bool" where
  "wait_summary k s s' =
     (\<exists>ev. trace s' = trace s @ ev
        \<and> failed_link_checks ev = link_waits ev + k
        \<and> refused_connects ev = session_waits ev)"

text \<open>
  The session is down at the first six calls; the connect at call 3 is refused, the one at
  call 6 is accepted.
\<close>

definition env_session_accept :: env where
  "env_session_accept =
     env_ready\<lparr>mqtt_connected := (\<lambda>n. 7 \<le> n), mqtt_connect := (\<lambda>n i. 6 \<le> n)\<rparr>"

text \<open>
  The state after a poll of the supervisor that finds the link and the session up, and
  after one that finds the link up and the session lost, reconnects at the first attempt
  and finds the session up then.
\<close>

definition polled_ready :: "world \<Rightarrow> world" where
  "polled_ready s = s\<lparr>now := now s + 2, trace := trace s @ [WifiStatus True, MqttConnected True]\<rparr>"

definition polled_reconnected :: "world \<Rightarrow> world" where
  "polled_reconnected s =
     s\<lparr>now := now s + 5,
       trace := trace s @ [WifiStatus True, MqttConnected False, MqttConnected False,
         SerialPrint ''Connecting to MQTT...'', MqttConnectCall ''ESP32'',
         MqttConnectResult True, SerialPrintln ''Connected to MQTT Broker.'',
         MqttConnected True]\<rparr>"

text \<open>The send fails and the session is lost until call 5.\<close>

definition env_send_fails_session_lost :: env where
  "env_send_fails_session_lost =
     env_ready\<lparr>mqtt_publish := (\<lambda>n t m. False), mqtt_connected := (\<lambda>n. 5 \<le> n)\<rparr>"

section \<open>Lemmas\<close>

subsection \<open>Events and states\<close>

lemma foldl_link_no_link:
  "\<forall>e\<in>set es. \<not> is_link_event e \<Longrightarrow> foldl link_step l es = l"
  by (induction es arbitrary: l) (auto elim: is_link_event.elims)

lemma link_step_no_link: "\<not> is_link_event e \<Longrightarrow> link_step l e = l"
  by (cases e) auto

lemma session_step_no_session: "\<not> is_session_event e \<Longrightarrow> session_step c e = c"
  by (cases e) auto

lemma foldl_session_no_session:
  "\<forall>e\<in>set es. \<not> is_session_event e \<Longrightarrow> foldl session_step c es = c"
  by (induction es arbitrary: c) (auto simp: session_step_no_session)

lemma sowu_append:
  "session_only_when_up l (xs @ ys) =
     (session_only_when_up l xs \<and> session_only_when_up (foldl link_step l xs) ys)"
  by (induction xs arbitrary: l) auto

lemma sowu_no_session:
  "\<forall>e\<in>set es. \<not> is_session_event e \<Longrightarrow> session_only_when_up l es"
  by (induction es arbitrary: l) auto

lemma sowu_no_link:
  "\<forall>e\<in>set es. \<not> is_link_event e \<Longrightarrow> session_only_when_up Up es"
  by (induction es) (auto simp: link_step_no_link)

lemma soc_append:
  "sends_only_connected c (xs @ ys) =
     (sends_only_connected c xs \<and> sends_only_connected (foldl session_step c xs) ys)"
  by (induction xs arbitrary: c) auto

lemma soc_no_publish:
  "\<forall>e\<in>set es. \<not> is_publish e \<Longrightarrow> sends_only_connected c es"
  by (induction es arbitrary: c) auto

lemma payloads_append: "payloads (xs @ ys) = payloads xs @ payloads ys"
  by (induction xs rule: payloads.induct) auto

lemma payloads_no_publish: "\<forall>e\<in>set es. \<not> is_publish e \<Longrightarrow> payloads es = []"
  by (induction es rule: payloads.induct) auto

subsection \<open>The link layer\<close>

lemma link_summaryI:
  "lastReadTime s' = lastReadTime s \<Longrightarrow> trace s' = trace s @ ev \<Longrightarrow>
   \<forall>e\<in>set ev. \<not> is_session_event e \<and> \<not> is_sensor_read e \<Longrightarrow>
   \<forall>l. foldl link_step l ev = Up \<Longrightarrow> WifiStatus True \<in> set ev \<Longrightarrow> link_summary s s'"
  unfolding link_summary_def by blast

lemma link_summary_extend:
  assumes "link_summary s1 s'" and "trace s1 = trace s @ pre" and "lastReadTime s1 = lastReadTime s"
    and "\<forall>e\<in>set pre. \<not> is_session_event e \<and> \<not> is_sensor_read e"
  shows "link_summary s s'"
proof -
  from assms(1) obtain ev where ev: "trace s' = trace s1 @ ev"
    "\<forall>e\<in>set ev. \<not> is_session_event e \<and> \<not> is_sensor_read e"
    "\<forall>l. foldl link_step l ev = Up" "WifiStatus True \<in> set ev" and lrt: "lastReadTime s' = lastReadTime s1"
    unfolding link_summary_def by blast
  show ?thesis
  proof (rule link_summaryI)
    show "lastReadTime s' = lastReadTime s" using lrt assms(3) by simp
    show "trace s' = trace s @ (pre @ ev)" using ev(1) assms(2) by simp
    show "\<forall>e\<in>set (pre @ ev). \<not> is_session_event e \<and> \<not> is_sensor_read e"
      using ev(2) assms(4) by auto
    show "\<forall>l. foldl link_step l (pre @ ev) = Up" using ev(3) by simp
    show "WifiStatus True \<in> set (pre @ ev)" using ev(4) by simp
  qed
qed

lemma wifi_while_summary:
  assumes "connectToWiFi_while E s = Some s'"
  shows "link_summary s s'"
proof (rule connectToWiFi_while.raw_induct[where P = "\<lambda>E s s'. link_summary s s'", OF _ assms])
  fix f E s s'
  assume IH: "\<And>E s y. f E s = Some y \<Longrightarrow> link_summary s y"
    and body: "(let up = wifi_connected E (now s); s1 = answered (WifiStatus up) s
          in if \<not> up then f E (emit (SerialPrint ''.'') (emit (Delay 500) s1)) else Some s1) = Some s'"
  show "link_summary s s'"
  proof (cases "wifi_connected E (now s)")
    case True
    with body have "s' = answered (WifiStatus True) s"
      by (simp add: Let_def)
    then show ?thesis
      by (intro link_summaryI[where ev = "[WifiStatus True]"]) (simp_all add: answered_def)
  next
    case False
    let ?s1 = "emit (SerialPrint ''.'') (emit (Delay 500) (answered (WifiStatus False) s))"
    from False body have "f E ?s1 = Some s'"
      by (simp add: Let_def)
    then have "link_summary ?s1 s'" by (rule IH)
    then show ?thesis
      by (rule link_summary_extend[where pre = "[WifiStatus False, Delay 500, SerialPrint ''.'']"])
         (simp_all add: emit_def answered_def)
  qed
qed

lemma connectToWiFi_summary:
  assumes "connectToWiFi E s = Some s'"
  shows "link_summary s s'"
proof -
  let ?s3 = "emit (WifiBegin ssid password) (emit (SerialPrintln ssid) (emit (SerialPrint ''Connecting to Wi-Fi: '') s))"
  from assms obtain s4 where s4: "connectToWiFi_while E ?s3 = Some s4"
    and s': "s' = emit (SerialPrintln (CHR 0x0A # ''Wi-Fi Connected.'')) s4"
    by (auto simp: connectToWiFi_def Let_def split: option.splits)
  from wifi_while_summary[OF s4] obtain ev where ev: "trace s4 = trace ?s3 @ ev"
    "\<forall>e\<in>set ev. \<not> is_session_event e \<and> \<not> is_sensor_read e"
    "\<forall>l. foldl link_step l ev = Up" "WifiStatus True \<in> set ev" and lrt: "lastReadTime s4 = lastReadTime ?s3"
    unfolding link_summary_def by blast
  show ?thesis
  proof (rule link_summaryI)
    show "lastReadTime s' = lastReadTime s" using lrt s' by (simp add: emit_def)
    show "trace s' = trace s @ ([SerialPrint ''Connecting to Wi-Fi: '', SerialPrintln ssid, WifiBegin ssid password]
        @ ev @ [SerialPrintln (CHR 0x0A # ''Wi-Fi Connected.'')])"
      using ev(1) s' by (simp add: emit_def)
    show "\<forall>e\<in>set ([SerialPrint ''Connecting to Wi-Fi: '', SerialPrintln ssid, WifiBegin ssid password]
        @ ev @ [SerialPrintln (CHR 0x0A # ''Wi-Fi Connected.'')]). \<not> is_session_event e \<and> \<not> is_sensor_read e"
      using ev(2) by auto
    show "\<forall>l. foldl link_step l ([SerialPrint ''Connecting to Wi-Fi: '', SerialPrintln ssid, WifiBegin ssid password]
        @ ev @ [SerialPrintln (CHR 0x0A # ''Wi-Fi Connected.'')]) = Up"
      using ev(3) by simp
    show "WifiStatus True \<in> set ([SerialPrint ''Connecting to Wi-Fi: '', SerialPrintln ssid, WifiBegin ssid password]
        @ ev @ [SerialPrintln (CHR 0x0A # ''Wi-Fi Connected.'')])"
      using ev(4) by simp
  qed
qed

lemma ensureWiFi_summary:
  assumes "ensureWiFiConnection E s = Some s'"
  shows "link_summary s s'"
proof (cases "wifi_connected E (now s)")
  case True
  with assms have "s' = answered (WifiStatus True) s"
    by (simp add: ensureWiFiConnection_def Let_def)
  then show ?thesis
    by (intro link_summaryI[where ev = "[WifiStatus True]"]) (simp_all add: answered_def)
next
  case False
  with assms have "connectToWiFi E (answered (WifiStatus False) s) = Some s'"
    by (simp add: ensureWiFiConnection_def Let_def)
  then have "link_summary (answered (WifiStatus False) s) s'"
    by (rule connectToWiFi_summary)
  then show ?thesis
    by (rule link_summary_extend[where pre = "[WifiStatus False]"]) (simp_all add: answered_def)
qed

subsection \<open>The session layer\<close>

lemma session_summaryI:
  "lastReadTime s' = lastReadTime s \<Longrightarrow> trace s' = trace s @ ev \<Longrightarrow>
   \<forall>e\<in>set ev. \<not> is_link_event e \<and> \<not> is_publish e \<and> \<not> is_sensor_read e \<Longrightarrow>
   \<forall>c. foldl session_step c ev = Connected \<Longrightarrow> MqttConnected True \<in> set ev \<Longrightarrow>
   session_summary s s'"
  unfolding session_summary_def by blast

lemma session_summary_extend:
  assumes "session_summary s1 s'" and "trace s1 = trace s @ pre" and "lastReadTime s1 = lastReadTime s"
    and "\<forall>e\<in>set pre. \<not> is_link_event e \<and> \<not> is_publish e \<and> \<not> is_sensor_read e"
  shows "session_summary s s'"
proof -
  from assms(1) obtain ev where ev: "trace s' = trace s1 @ ev"
    "\<forall>e\<in>set ev. \<not> is_link_event e \<and> \<not> is_publish e \<and> \<not> is_sensor_read e"
    "\<forall>c. foldl session_step c ev = Connected" "MqttConnected True \<in> set ev" and lrt: "lastReadTime s' = lastReadTime s1"
    unfolding session_summary_def by blast
  show ?thesis
  proof (rule session_summaryI)
    show "lastReadTime s' = lastReadTime s" using lrt assms(3) by simp
    show "trace s' = trace s @ (pre @ ev)" using ev(1) assms(2) by simp
    show "\<forall>e\<in>set (pre @ ev). \<not> is_link_event e \<and> \<not> is_publish e \<and> \<not> is_sensor_read e"
      using ev(2) assms(4) by auto
    show "\<forall>c. foldl session_step c (pre @ ev) = Connected" using ev(3) by simp
    show "MqttConnected True \<in> set (pre @ ev)" using ev(4) by simp
  qed
qed

lemma connectToMQTT_summary:
  assumes "connectToMQTT E s = Some s'"
  shows "session_summary s s'"
proof (rule connectToMQTT.raw_induct[where P = "\<lambda>E s s'. session_summary s s'", OF _ assms])
  fix f E s s'
  assume IH: "\<And>E s y. f E s = Some y \<Longrightarrow> session_summary s y"
    and body: "(let c = mqtt_connected E (now s);
           s1 = answered (MqttConnected c) s
       in if \<not> c then
           (let s2 = emit (MqttConnectCall ''ESP32'') (emit (SerialPrint ''Connecting to MQTT...'') s1);
                ok = mqtt_connect E (now s2) ''ESP32'';
                s3 = answered (MqttConnectResult ok) s2
            in if ok then f E (emit (SerialPrintln ''Connected to MQTT Broker.'') s3)
               else
                 (let s4 = emit (SerialPrint ''Failed. State='') s3;
                      st = mqtt_state E (now s4);
                      s5 = emit (SerialPrintlnState st) (answered (MqttState st) s4)
                  in f E (emit (Delay 2000) s5)))
         else Some s1) = Some s'"
  show "session_summary s s'"
  proof (cases "mqtt_connected E (now s)")
    case True
    with body have "s' = answered (MqttConnected True) s"
      by (simp add: Let_def)
    then show ?thesis
      by (intro session_summaryI[where ev = "[MqttConnected True]"]) (simp_all add: answered_def)
  next
    case False
    note down = this
    show ?thesis
    proof (cases "mqtt_connect E (Suc (now s)) ''ESP32''")
      case True
      let ?s1 = "emit (SerialPrintln ''Connected to MQTT Broker.'')
         (answered (MqttConnectResult True)
           (emit (MqttConnectCall ''ESP32'') (emit (SerialPrint ''Connecting to MQTT...'')
             (answered (MqttConnected False) s))))"
      from down True body have "f E ?s1 = Some s'"
        by (simp add: Let_def emit_def answered_def)
      then have "session_summary ?s1 s'" by (rule IH)
      then show ?thesis
        by (rule session_summary_extend[where pre = "[MqttConnected False, SerialPrint ''Connecting to MQTT...'',
               MqttConnectCall ''ESP32'', MqttConnectResult True, SerialPrintln ''Connected to MQTT Broker.'']"])
           (simp_all add: emit_def answered_def)
    next
      case False
      let ?st = "mqtt_state E (Suc (Suc (now s)))"
      let ?s1 = "emit (Delay 2000) (emit (SerialPrintlnState ?st) (answered (MqttState ?st)
         (emit (SerialPrint ''Failed. State='')
         (answered (MqttConnectResult False)
           (emit (MqttConnectCall ''ESP32'') (emit (SerialPrint ''Connecting to MQTT...'')
             (answered (MqttConnected False) s)))))))"
      from down False body have "f E ?s1 = Some s'"
        by (simp add: Let_def emit_def answered_def)
      then have "session_summary ?s1 s'" by (rule IH)
      then show ?thesis
        by (rule session_summary_extend[where pre = "[MqttConnected False, SerialPrint ''Connecting to MQTT...'',
               MqttConnectCall ''ESP32'', MqttConnectResult False, SerialPrint ''Failed. State='',
               MqttState ?st, SerialPrintlnState ?st, Delay 2000]"])
           (simp_all add: emit_def answered_def)
    qed
  qed
qed

lemma ensureMQTT_summary:
  assumes "ensureMQTTConnection E s = Some s'"
  shows "session_summary s s'"
proof (cases "mqtt_connected E (now s)")
  case True
  with assms have "s' = answered (MqttConnected True) s"
    by (simp add: ensureMQTTConnection_def Let_def)
  then show ?thesis
    by (intro session_summaryI[where ev = "[MqttConnected True]"]) (simp_all add: answered_def)
next
  case False
  with assms have "connectToMQTT E (answered (MqttConnected False) s) = Some s'"
    by (simp add: ensureMQTTConnection_def Let_def)
  then have "session_summary (answered (MqttConnected False) s) s'"
    by (rule connectToMQTT_summary)
  then show ?thesis
    by (rule session_summary_extend[where pre = "[MqttConnected False]"]) (simp_all add: answered_def)
qed

subsection \<open>Sensing, publishing and the iteration\<close>

lemma loop_split:
  "loop E s = (case ensure_ready E s of None \<Rightarrow> None | Some s2 \<Rightarrow> Some (tick_body E s2))"
  by (simp add: loop_def ensure_ready_def tick_body_def Let_def split: option.splits prod.splits)

lemma new_events_append: "trace s' = trace s @ ev \<Longrightarrow> new_events s s' = ev"
  by (simp add: new_events_def)

lemma classify_range: "classify f \<in> {0, GESTURE_FIST, GESTURE_OPEN_HAND, GESTURE_LEFT, GESTURE_RIGHT}"
  by (simp add: classify_def)

lemma readFlexSensor_eq:
  "readFlexSensor E pin s = (analogRead E (now s) pin,
      s\<lparr>now := Suc (now s), trace := trace s @ [AnalogRead pin (analogRead E (now s) pin)]\<rparr>)"
  by (simp add: readFlexSensor_def Let_def answered_def)

lemma readMPU6050_eq:
  "readMPU6050 E s = (mpu_getEvent E (now s),
      s\<lparr>now := Suc (now s), trace := trace s @ [MpuEvent (fst (mpu_getEvent E (now s)))
         (fst (snd (mpu_getEvent E (now s)))) (snd (snd (mpu_getEvent E (now s))))]\<rparr>)"
  by (simp add: readMPU6050_def answered_def split: prod.splits)


lemma debounceTouchSensor_eq:
  "debounceTouchSensor E pin s =
     (debounced (digitalRead E (now s) pin) (digitalRead E (Suc (now s)) pin),
      s\<lparr>now := Suc (Suc (now s)),
        trace := trace s @ [DigitalRead pin (digitalRead E (now s) pin), Delay 50,
                            DigitalRead pin (digitalRead E (Suc (now s)) pin)]\<rparr>)"
  by (simp add: debounceTouchSensor_def debounced_def Let_def answered_def emit_def)


lemma detectGesture_eq:
  "detectGesture E s =
     (classify (frame_at E (now s)),
      s\<lparr>now := now s + 7, trace := trace s @ sense_events E (now s)\<rparr>)"
  by (simp add: detectGesture_def readFlexSensor_eq readMPU6050_eq debounceTouchSensor_eq
      debugSensors_def emit_def frame_at_def sense_events_def split_def Let_def eval_nat_numeral)

lemma publishGesture_eq:
  "publishGesture E g s =
     s\<lparr>now := Suc (now s),
       trace := trace s @
         (if mqtt_publish E (now s) mqttTopic (snprintf_0x02X 10 g)
          then [Publish mqttTopic (snprintf_0x02X 10 g) True, SerialPrint ''Published gesture code: '',
                SerialPrintln (snprintf_0x02X 10 g)]
          else [Publish mqttTopic (snprintf_0x02X 10 g) False,
                SerialPrintln ''Failed to publish gesture code!''])\<rparr>"
  by (simp add: publishGesture_def Let_def emit_def answered_def)



lemma tick_body_eq:
  "tick_body E s =
     s\<lparr>now := (if readInterval \<le> millis E (now s) - lastReadTime s
                then (if classify (frame_at E (now s + 1)) \<noteq> 0 then now s + 9 else now s + 8)
                else now s + 1),
       lastReadTime := (if readInterval \<le> millis E (now s) - lastReadTime s
                        then millis E (now s) else lastReadTime s),
       trace := trace s @ tick_events E (now s) (lastReadTime s)\<rparr>"
  by (simp add: tick_body_def Let_def answered_def detectGesture_eq publishGesture_eq
      tick_events_def publish_events_def add.commute)

lemma sense_events_props:
  "\<forall>e\<in>set (sense_events E n). \<not> is_link_event e \<and> \<not> is_session_event e \<and> \<not> is_publish e
      \<and> \<not> is_retry_wait e"
  by (simp add: sense_events_def)

lemma sense_events_reads: "\<exists>e\<in>set (sense_events E n). is_sensor_read e"
  by (simp add: sense_events_def)

lemma payloads_sense_events: "payloads (sense_events E n) = []"
  by (simp add: sense_events_def)

lemma publish_events_props:
  "\<forall>e\<in>set (publish_events E n g). \<not> is_link_event e \<and> session_step c e = c
      \<and> \<not> is_retry_wait e \<and> \<not> is_sensor_read e"
  by (simp add: publish_events_def)

lemma payloads_publish_events: "payloads (publish_events E n g) = [snprintf_0x02X 10 g]"
  by (simp add: publish_events_def)

lemma tick_events_props:
  "\<forall>e\<in>set (tick_events E n lrt). \<not> is_link_event e \<and> session_step c e = c \<and> \<not> is_retry_wait e"
  using sense_events_props[of E "n + 1"] publish_events_props[of E "n + 8" _ c]
  by (auto simp: tick_events_def session_step_no_session)

lemma payload_codes:
  "snprintf_0x02X 10 GESTURE_FIST = ''0x01''" "snprintf_0x02X 10 GESTURE_OPEN_HAND = ''0x02''"
  "snprintf_0x02X 10 GESTURE_LEFT = ''0x03''" "snprintf_0x02X 10 GESTURE_RIGHT = ''0x04''"
  by (simp_all add: snprintf_0x02X_def format_0x02X_def zero_pad_def hex_upper.simps hex_digit_def
      GESTURE_FIST_def GESTURE_OPEN_HAND_def GESTURE_LEFT_def GESTURE_RIGHT_def)

lemma new_events_publish:
  "new_events s (publishGesture E g s) = publish_events E (now s) g"
  by (simp add: new_events_def publishGesture_eq publish_events_def)

lemma publish_is_session: "is_publish e \<Longrightarrow> is_session_event e"
  by (cases e) auto

lemma ensure_ready_summary:
  assumes "ensure_ready E s = Some s'"
  shows "ready_summary s s'"
proof -
  from assms obtain s1 where s1: "ensureWiFiConnection E s = Some s1"
    and s2: "ensureMQTTConnection E s1 = Some s'"
    by (auto simp: ensure_ready_def split: option.splits)
  from ensureWiFi_summary[OF s1] obtain ev1 where ev1: "trace s1 = trace s @ ev1"
    "\<forall>e\<in>set ev1. \<not> is_session_event e \<and> \<not> is_sensor_read e"
    "\<forall>l. foldl link_step l ev1 = Up" "WifiStatus True \<in> set ev1" and lrt1: "lastReadTime s1 = lastReadTime s"
    unfolding link_summary_def by blast
  from ensureMQTT_summary[OF s2] obtain ev2 where ev2: "trace s' = trace s1 @ ev2"
    "\<forall>e\<in>set ev2. \<not> is_link_event e \<and> \<not> is_publish e \<and> \<not> is_sensor_read e"
    "\<forall>c. foldl session_step c ev2 = Connected" "MqttConnected True \<in> set ev2" and lrt2: "lastReadTime s' = lastReadTime s1"
    unfolding session_summary_def by blast
  have a: "trace s' = trace s @ (ev1 @ ev2)"
    using ev1(1) ev2(1) by simp
  have b: "\<forall>e\<in>set (ev1 @ ev2). \<not> is_publish e \<and> \<not> is_sensor_read e"
    using ev1(2) ev2(2) publish_is_session by auto
  have "session_only_when_up Down ev1"
    using ev1(2) by (intro sowu_no_session) blast
  moreover have "session_only_when_up Up ev2"
    using ev2(2) by (intro sowu_no_link) blast
  ultimately have c: "session_only_when_up Down (ev1 @ ev2)"
    using ev1(3) by (simp add: sowu_append)
  have "\<And>l. foldl link_step l ev2 = l"
    using ev2(2) by (intro foldl_link_no_link) blast
  then have d: "\<forall>l. foldl link_step l (ev1 @ ev2) = Up"
    using ev1(3) by simp
  have e: "\<forall>c. foldl session_step c (ev1 @ ev2) = Connected"
    using ev2(3) by simp
  have f: "WifiStatus True \<in> set (ev1 @ ev2)" "MqttConnected True \<in> set (ev1 @ ev2)"
    using ev1(4) ev2(4) by simp_all
  show ?thesis
    unfolding ready_summary_def using a b c d e f lrt1 lrt2
    by (intro conjI exI[of _ "ev1 @ ev2"]) simp_all
qed

lemma soc_stays:
  "\<forall>e\<in>set es. session_step Connected e = Connected \<Longrightarrow> sends_only_connected Connected es"
  by (induction es) auto

lemma foldl_session_stays:
  "\<forall>e\<in>set es. session_step c e = c \<Longrightarrow> foldl session_step c es = c"
  by (induction es) auto

lemma new_events_tick: "new_events s (tick_body E s) = tick_events E (now s) (lastReadTime s)"
  by (simp add: new_events_def tick_body_eq)

lemma trace_tick: "trace (tick_body E s) = trace s @ tick_events E (now s) (lastReadTime s)"
  by (simp add: tick_body_eq)

text \<open>What one iteration that returns has done, as one fact.\<close>

lemma loop_events:
  assumes "loop E s = Some s'"
  obtains s2 ev where "ensure_ready E s = Some s2" "s' = tick_body E s2"
    "trace s2 = trace s @ ev" "lastReadTime s2 = lastReadTime s"
    "new_events s s' = ev @ tick_events E (now s2) (lastReadTime s)"
    "\<forall>e\<in>set ev. \<not> is_publish e \<and> \<not> is_sensor_read e"
    "session_only_when_up Down ev"
    "\<forall>l. foldl link_step l ev = Up"
    "\<forall>c. foldl session_step c ev = Connected"
    "WifiStatus True \<in> set ev" "MqttConnected True \<in> set ev"
proof -
  from assms obtain s2 where s2: "ensure_ready E s = Some s2" and s': "s' = tick_body E s2"
    by (auto simp: loop_split split: option.splits)
  from ensure_ready_summary[OF s2] obtain ev where ev: "trace s2 = trace s @ ev"
    "lastReadTime s2 = lastReadTime s"
    "\<forall>e\<in>set ev. \<not> is_publish e \<and> \<not> is_sensor_read e"
    "session_only_when_up Down ev"
    "\<forall>l. foldl link_step l ev = Up"
    "\<forall>c. foldl session_step c ev = Connected"
    "WifiStatus True \<in> set ev" "MqttConnected True \<in> set ev"
    unfolding ready_summary_def by blast
  have "new_events s s' = ev @ tick_events E (now s2) (lastReadTime s)"
    using ev(1,2) s' by (simp add: new_events_def trace_tick)
  with s2 s' ev show ?thesis
    by (intro that[of s2 ev]) simp_all
qed

lemmas run_defs = loop_split ensure_ready_def ensureWiFiConnection_def ensureMQTTConnection_def
  tick_body_eq tick_events_def sense_events_def frame_at_def classify_def publish_events_def
  debounced_def answered_def emit_def Let_def world_init_def readInterval_def
  HIGH_def LOW_def GESTURE_FIST_def GESTURE_OPEN_HAND_def GESTURE_LEFT_def GESTURE_RIGHT_def
  FLEX_SENSOR_1_PIN_def FLEX_SENSOR_2_PIN_def TOUCH_SENSOR_1_PIN_def TOUCH_SENSOR_2_PIN_def
  mqttTopic_def snprintf_0x02X_def format_0x02X_def zero_pad_def hex_upper.simps hex_digit_def

lemma loop_ready_run: "loop env_ready world_init = Some world_ready_tick"
  by (simp add: run_defs env_ready_def world_ready_tick_def)

lemma gate_mod32:
  fixes cur lrt :: c_ulong
  shows "(readInterval \<le> cur - lrt) = (500 \<le> (uint cur - uint lrt) mod 2 ^ 32)"
  by (simp add: readInterval_def word_le_def uint_word_ariths)

lemma payloads_tick_events:
  "set (payloads (tick_events E n lrt)) \<subseteq> {''0x01'', ''0x02'', ''0x03'', ''0x04''}"
  using classify_range[of "frame_at E (n + 1)"]
  by (auto simp: tick_events_def payloads_append payloads_sense_events payloads_publish_events
      payload_codes)

lemma sensor_read_tick_events:
  "(\<exists>e\<in>set (tick_events E n lrt). is_sensor_read e) = (readInterval \<le> millis E n - lrt)"
  using sense_events_reads[of E "n + 1"]
  by (auto simp: tick_events_def)

lemma classify_guards:
  "classify f =
     (if fist_guard 500 f then GESTURE_FIST
      else if open_hand_guard 2000 f then GESTURE_OPEN_HAND
      else if left_guard (- 5) f then GESTURE_LEFT
      else if right_guard 5 f then GESTURE_RIGHT
      else 0)"
  by (simp add: classify_def fist_guard_def open_hand_guard_def left_guard_def right_guard_def)

lemma float_less_asym: "float_less x (Finite a) \<Longrightarrow> float_less (Finite b) x \<Longrightarrow> b < a"
  by (cases x) auto

lemma wifi_while_returns_up:
  assumes "connectToWiFi_while E s = Some s'"
  shows "\<exists>i. wifi_connected E i"
proof (rule connectToWiFi_while.raw_induct[where P = "\<lambda>E s s'. \<exists>i. wifi_connected E i", OF _ assms])
  fix f E s s'
  assume IH: "\<And>E s y. f E s = Some y \<Longrightarrow> \<exists>i. wifi_connected E i"
    and body: "(let up = wifi_connected E (now s); s1 = answered (WifiStatus up) s
          in if \<not> up then f E (emit (SerialPrint ''.'') (emit (Delay 500) s1)) else Some s1) = Some s'"
  show "\<exists>i. wifi_connected E i"
  proof (cases "wifi_connected E (now s)")
    case True
    then show ?thesis by blast
  next
    case False
    with body have "f E (emit (SerialPrint ''.'') (emit (Delay 500) (answered (WifiStatus False) s))) = Some s'"
      by (simp add: Let_def)
    then show ?thesis by (rule IH)
  qed
qed

lemma mqtt_returns_connected:
  assumes "connectToMQTT E s = Some s'"
  shows "\<exists>i. mqtt_connected E i"
proof (rule connectToMQTT.raw_induct[where P = "\<lambda>E s s'. \<exists>i. mqtt_connected E i", OF _ assms])
  fix f E s s'
  assume IH: "\<And>E s y. f E s = Some y \<Longrightarrow> \<exists>i. mqtt_connected E i"
    and body: "(let c = mqtt_connected E (now s);
           s1 = answered (MqttConnected c) s
       in if \<not> c then
           (let s2 = emit (MqttConnectCall ''ESP32'') (emit (SerialPrint ''Connecting to MQTT...'') s1);
                ok = mqtt_connect E (now s2) ''ESP32'';
                s3 = answered (MqttConnectResult ok) s2
            in if ok then f E (emit (SerialPrintln ''Connected to MQTT Broker.'') s3)
               else
                 (let s4 = emit (SerialPrint ''Failed. State='') s3;
                      st = mqtt_state E (now s4);
                      s5 = emit (SerialPrintlnState st) (answered (MqttState st) s4)
                  in f E (emit (Delay 2000) s5)))
         else Some s1) = Some s'"
  show "\<exists>i. mqtt_connected E i"
  proof (cases "mqtt_connected E (now s)")
    case True
    then show ?thesis by blast
  next
    case False
    with body obtain s1 where "f E s1 = Some s'"
      by (auto simp: Let_def split: if_splits)
    then show ?thesis by (rule IH)
  qed
qed

lemma ensure_ready_no_link: "\<forall>i. \<not> wifi_connected E i \<Longrightarrow> ensure_ready E s = None"
proof (rule ccontr)
  assume never: "\<forall>i. \<not> wifi_connected E i" and "ensure_ready E s \<noteq> None"
  then obtain s1 where "ensureWiFiConnection E s = Some s1"
    by (auto simp: ensure_ready_def split: option.splits)
  with never obtain s3 s4 where "connectToWiFi_while E s3 = Some s4"
    by (auto simp: ensureWiFiConnection_def connectToWiFi_def Let_def split: option.splits)
  from wifi_while_returns_up[OF this] never show False by blast
qed

lemma ensure_ready_no_session: "\<forall>i. \<not> mqtt_connected E i \<Longrightarrow> ensure_ready E s = None"
proof (rule ccontr)
  assume never: "\<forall>i. \<not> mqtt_connected E i" and "ensure_ready E s \<noteq> None"
  then obtain s1 s2 where "ensureMQTTConnection E s1 = Some s2"
    by (auto simp: ensure_ready_def split: option.splits)
  with never have "connectToMQTT E (answered (MqttConnected False) s1) = Some s2"
    by (auto simp: ensureMQTTConnection_def Let_def)
  from mqtt_returns_connected[OF this] never show False by blast
qed

lemma ensure_ready_link_late_run: "ensure_ready env_link_late world_init = Some world_link_late"
  by (simp add: ensure_ready_def ensureWiFiConnection_def connectToWiFi_def
      connectToWiFi_while.simps ensureMQTTConnection_def env_link_late_def env_ready_def
      world_init_def world_link_late_def answered_def emit_def Let_def ssid_def password_def)

lemma foldl_conn_step:
  "foldl conn_step c ev = (foldl link_step (fst c) ev, foldl session_step (snd c) ev)"
  by (induction ev arbitrary: c) (simp_all add: conn_step_def)

lemmas link_run_defs = loop_split ensure_ready_def ensureWiFiConnection_def connectToWiFi_def
  connectToWiFi_while.simps ensureMQTTConnection_def tick_body_eq tick_events_def
  env_link_loss_def env_ready_def answered_def emit_def Let_def ssid_def password_def
  readInterval_def

lemma link_loss_tick1: "loop env_link_loss world_init = Some world_link_tick1"
  by (simp add: link_run_defs world_init_def world_link_tick1_def)

lemma link_loss_relinked: "ensureWiFiConnection env_link_loss world_link_tick1 = Some world_relinked"
  by (simp add: link_run_defs world_link_tick1_def world_relinked_def)

lemma link_loss_tick2: "loop env_link_loss world_link_tick1 = Some world_link_tick2"
  by (simp add: link_run_defs world_link_tick1_def world_link_tick2_def)

lemma trace_blindI:
  assumes "\<And>s s'. f s = Some s' \<Longrightarrow>
      \<exists>ev. trace s' = trace s @ ev \<and> (\<forall>t. f (s\<lparr>trace := t\<rparr>) = Some (s'\<lparr>trace := t @ ev\<rparr>))"
  shows "trace_blind f"
  unfolding trace_blind_def using assms by blast

lemma trace_blind_Some:
  assumes "trace_blind f" and "f s = Some s'"
  shows "trace s' = trace s @ new_events s s'"
    and "f (s\<lparr>trace := t\<rparr>) = Some (s'\<lparr>trace := t @ new_events s s'\<rparr>)"
proof -
  from assms obtain ev where ev: "trace s' = trace s @ ev"
    "\<forall>t. f (s\<lparr>trace := t\<rparr>) = Some (s'\<lparr>trace := t @ ev\<rparr>)"
    unfolding trace_blind_def by blast
  from ev(1) have "new_events s s' = ev" by (rule new_events_append)
  with ev show "trace s' = trace s @ new_events s s'"
    and "f (s\<lparr>trace := t\<rparr>) = Some (s'\<lparr>trace := t @ new_events s s'\<rparr>)"
    by simp_all
qed

lemma trace_blind_None:
  assumes "trace_blind f" and "f s = None"
  shows "f (s\<lparr>trace := t\<rparr>) = None"
proof (rule ccontr)
  assume "f (s\<lparr>trace := t\<rparr>) \<noteq> None"
  then obtain y where "f (s\<lparr>trace := t\<rparr>) = Some y" by blast
  from trace_blind_Some(2)[OF assms(1) this, of "trace s"] assms(2) show False
    by simp
qed

lemma trace_blind_eq:
  assumes "trace_blind f"
  shows "f (s\<lparr>trace := t\<rparr>) = map_option (\<lambda>s'. s'\<lparr>trace := t @ new_events s s'\<rparr>) (f s)"
proof (cases "f s")
  case None
  with trace_blind_None[OF assms None] show ?thesis by simp
next
  case (Some s')
  with trace_blind_Some(2)[OF assms Some] show ?thesis by simp
qed

lemma trace_blind_bind:
  assumes "trace_blind f" and "trace_blind g"
  shows "trace_blind (\<lambda>s. case f s of None \<Rightarrow> None | Some s1 \<Rightarrow> g s1)"
proof (rule trace_blindI)
  fix s s'
  assume "(case f s of None \<Rightarrow> None | Some s1 \<Rightarrow> g s1) = Some s'"
  then obtain s1 where f: "f s = Some s1" and g: "g s1 = Some s'"
    by (auto split: option.splits)
  note f1 = trace_blind_Some[OF assms(1) f]
  note g1 = trace_blind_Some[OF assms(2) g]
  have "trace s' = trace s @ (new_events s s1 @ new_events s1 s')"
    by (subst g1(1), subst f1(1)) simp
  moreover have "(case f (s\<lparr>trace := t\<rparr>) of None \<Rightarrow> None | Some s1 \<Rightarrow> g s1)
      = Some (s'\<lparr>trace := t @ (new_events s s1 @ new_events s1 s')\<rparr>)" for t
    by (simp add: f1(2) g1(2))
  ultimately show "\<exists>ev. trace s' = trace s @ ev \<and>
      (\<forall>t. (case f (s\<lparr>trace := t\<rparr>) of None \<Rightarrow> None | Some s1 \<Rightarrow> g s1) = Some (s'\<lparr>trace := t @ ev\<rparr>))"
    by blast
qed

lemma trace_blind_pure:
  assumes "\<And>s t. h (s\<lparr>trace := t\<rparr>) = (h s)\<lparr>trace := t @ ev s\<rparr>"
    and "\<And>s. trace (h s) = trace s @ ev s"
  shows "trace_blind (\<lambda>s. Some (h s))"
  by (rule trace_blindI) (use assms in blast)

lemma trace_blind_if:
  assumes "trace_blind f" and "trace_blind g" and "\<And>s t. b (s\<lparr>trace := t\<rparr>) = b s"
  shows "trace_blind (\<lambda>s. if b s then f s else g s)"
proof (rule trace_blindI)
  fix s s'
  assume r: "(if b s then f s else g s) = Some s'"
  show "\<exists>ev. trace s' = trace s @ ev \<and>
      (\<forall>t. (if b (s\<lparr>trace := t\<rparr>) then f (s\<lparr>trace := t\<rparr>) else g (s\<lparr>trace := t\<rparr>))
         = Some (s'\<lparr>trace := t @ ev\<rparr>))"
  proof (cases "b s")
    case True
    with r have "f s = Some s'" by simp
    from trace_blind_Some[OF assms(1) this] True show ?thesis
      by (auto simp: assms(3))
  next
    case False
    with r have "g s = Some s'" by simp
    from trace_blind_Some[OF assms(2) this] False show ?thesis
      by (auto simp: assms(3))
  qed
qed

lemma wifi_while_blind: "trace_blind (connectToWiFi_while E)"
proof (rule trace_blindI)
  fix s s'
  assume r: "connectToWiFi_while E s = Some s'"
  show "\<exists>ev. trace s' = trace s @ ev
      \<and> (\<forall>t. connectToWiFi_while E (s\<lparr>trace := t\<rparr>) = Some (s'\<lparr>trace := t @ ev\<rparr>))"
  proof (rule connectToWiFi_while.raw_induct[where P = "\<lambda>E s s'. \<exists>ev. trace s' = trace s @ ev
      \<and> (\<forall>t. connectToWiFi_while E (s\<lparr>trace := t\<rparr>) = Some (s'\<lparr>trace := t @ ev\<rparr>))", OF _ r])
    fix f E s s'
    assume IH: "\<And>E s y. f E s = Some y \<Longrightarrow> \<exists>ev. trace y = trace s @ ev
        \<and> (\<forall>t. connectToWiFi_while E (s\<lparr>trace := t\<rparr>) = Some (y\<lparr>trace := t @ ev\<rparr>))"
      and body: "(let up = wifi_connected E (now s); s1 = answered (WifiStatus up) s
          in if \<not> up then f E (emit (SerialPrint ''.'') (emit (Delay 500) s1)) else Some s1) = Some s'"
    show "\<exists>ev. trace s' = trace s @ ev
        \<and> (\<forall>t. connectToWiFi_while E (s\<lparr>trace := t\<rparr>) = Some (s'\<lparr>trace := t @ ev\<rparr>))"
    proof (cases "wifi_connected E (now s)")
      case True
      with body have s': "s' = answered (WifiStatus True) s"
        by (simp add: Let_def)
      have "connectToWiFi_while E (s\<lparr>trace := t\<rparr>) = Some (s'\<lparr>trace := t @ [WifiStatus True]\<rparr>)" for t
        using True by (subst connectToWiFi_while.simps) (simp add: Let_def s' answered_def)
      moreover have "trace s' = trace s @ [WifiStatus True]"
        by (simp add: s' answered_def)
      ultimately show ?thesis by blast
    next
      case False
      define pre where "pre = [WifiStatus False, Delay 500, SerialPrint ''.'']"
      define s1 where "s1 = emit (SerialPrint ''.'') (emit (Delay 500) (answered (WifiStatus False) s))"
      from False body have "f E s1 = Some s'"
        by (simp add: Let_def s1_def)
      from IH[OF this] obtain ev where ev: "trace s' = trace s1 @ ev"
        "\<forall>t. connectToWiFi_while E (s1\<lparr>trace := t\<rparr>) = Some (s'\<lparr>trace := t @ ev\<rparr>)"
        by blast
      have tr1: "trace s1 = trace s @ pre"
        by (simp add: s1_def pre_def emit_def answered_def)
      have "connectToWiFi_while E (s\<lparr>trace := t\<rparr>) = Some (s'\<lparr>trace := t @ (pre @ ev)\<rparr>)" for t
      proof -
        have "connectToWiFi_while E (s\<lparr>trace := t\<rparr>) = connectToWiFi_while E (s1\<lparr>trace := t @ pre\<rparr>)"
          using False
          by (subst connectToWiFi_while.simps) (simp add: Let_def s1_def pre_def emit_def answered_def)
        with ev(2) show ?thesis by simp
      qed
      moreover have "trace s' = trace s @ (pre @ ev)"
        using ev(1) tr1 by simp
      ultimately show ?thesis by blast
    qed
  qed
qed

lemma connectToMQTT_blind: "trace_blind (connectToMQTT E)"
proof (rule trace_blindI)
  fix s s'
  assume r: "connectToMQTT E s = Some s'"
  show "\<exists>ev. trace s' = trace s @ ev
      \<and> (\<forall>t. connectToMQTT E (s\<lparr>trace := t\<rparr>) = Some (s'\<lparr>trace := t @ ev\<rparr>))"
  proof (rule connectToMQTT.raw_induct[where P = "\<lambda>E s s'. \<exists>ev. trace s' = trace s @ ev
      \<and> (\<forall>t. connectToMQTT E (s\<lparr>trace := t\<rparr>) = Some (s'\<lparr>trace := t @ ev\<rparr>))", OF _ r])
    fix f E s s'
    assume IH: "\<And>E s y. f E s = Some y \<Longrightarrow> \<exists>ev. trace y = trace s @ ev
        \<and> (\<forall>t. connectToMQTT E (s\<lparr>trace := t\<rparr>) = Some (y\<lparr>trace := t @ ev\<rparr>))"
      and body: "(let c = mqtt_connected E (now s);
           s1 = answered (MqttConnected c) s
       in if \<not> c then
           (let s2 = emit (MqttConnectCall ''ESP32'') (emit (SerialPrint ''Connecting to MQTT...'') s1);
                ok = mqtt_connect E (now s2) ''ESP32'';
                s3 = answered (MqttConnectResult ok) s2
            in if ok then f E (emit (SerialPrintln ''Connected to MQTT Broker.'') s3)
               else
                 (let s4 = emit (SerialPrint ''Failed. State='') s3;
                      st = mqtt_state E (now s4);
                      s5 = emit (SerialPrintlnState st) (answered (MqttState st) s4)
                  in f E (emit (Delay 2000) s5)))
         else Some s1) = Some s'"
    show "\<exists>ev. trace s' = trace s @ ev
        \<and> (\<forall>t. connectToMQTT E (s\<lparr>trace := t\<rparr>) = Some (s'\<lparr>trace := t @ ev\<rparr>))"
    proof (cases "mqtt_connected E (now s)")
      case True
      with body have s': "s' = answered (MqttConnected True) s"
        by (simp add: Let_def)
      have "connectToMQTT E (s\<lparr>trace := t\<rparr>) = Some (s'\<lparr>trace := t @ [MqttConnected True]\<rparr>)" for t
        using True by (subst connectToMQTT.simps) (simp add: Let_def s' answered_def)
      moreover have "trace s' = trace s @ [MqttConnected True]"
        by (simp add: s' answered_def)
      ultimately show ?thesis by blast
    next
      case False
      note down = this
      show ?thesis
      proof (cases "mqtt_connect E (Suc (now s)) ''ESP32''")
        case True
        define pre where "pre = [MqttConnected False, SerialPrint ''Connecting to MQTT...'',
               MqttConnectCall ''ESP32'', MqttConnectResult True, SerialPrintln ''Connected to MQTT Broker.'']"
        define s1 where "s1 = emit (SerialPrintln ''Connected to MQTT Broker.'')
           (answered (MqttConnectResult True)
             (emit (MqttConnectCall ''ESP32'') (emit (SerialPrint ''Connecting to MQTT...'')
               (answered (MqttConnected False) s))))"
        from down True body have "f E s1 = Some s'"
          by (simp add: Let_def emit_def answered_def s1_def)
        from IH[OF this] obtain ev where ev: "trace s' = trace s1 @ ev"
          "\<forall>t. connectToMQTT E (s1\<lparr>trace := t\<rparr>) = Some (s'\<lparr>trace := t @ ev\<rparr>)"
          by blast
        have tr1: "trace s1 = trace s @ pre"
          by (simp add: s1_def pre_def emit_def answered_def)
        have "connectToMQTT E (s\<lparr>trace := t\<rparr>) = Some (s'\<lparr>trace := t @ (pre @ ev)\<rparr>)" for t
        proof -
          have "connectToMQTT E (s\<lparr>trace := t\<rparr>) = connectToMQTT E (s1\<lparr>trace := t @ pre\<rparr>)"
            using down True
            by (subst connectToMQTT.simps) (simp add: Let_def s1_def pre_def emit_def answered_def)
          with ev(2) show ?thesis by simp
        qed
        moreover have "trace s' = trace s @ (pre @ ev)"
          using ev(1) tr1 by simp
        ultimately show ?thesis by blast
      next
        case False
        define st where "st = mqtt_state E (Suc (Suc (now s)))"
        define pre where "pre = [MqttConnected False, SerialPrint ''Connecting to MQTT...'',
               MqttConnectCall ''ESP32'', MqttConnectResult False, SerialPrint ''Failed. State='',
               MqttState st, SerialPrintlnState st, Delay 2000]"
        define s1 where "s1 = emit (Delay 2000) (emit (SerialPrintlnState st) (answered (MqttState st)
           (emit (SerialPrint ''Failed. State='')
           (answered (MqttConnectResult False)
             (emit (MqttConnectCall ''ESP32'') (emit (SerialPrint ''Connecting to MQTT...'')
               (answered (MqttConnected False) s)))))))"
        from down False body have "f E s1 = Some s'"
          by (simp add: Let_def emit_def answered_def s1_def st_def)
        from IH[OF this] obtain ev where ev: "trace s' = trace s1 @ ev"
          "\<forall>t. connectToMQTT E (s1\<lparr>trace := t\<rparr>) = Some (s'\<lparr>trace := t @ ev\<rparr>)"
          by blast
        have tr1: "trace s1 = trace s @ pre"
          by (simp add: s1_def pre_def emit_def answered_def)
        have "connectToMQTT E (s\<lparr>trace := t\<rparr>) = Some (s'\<lparr>trace := t @ (pre @ ev)\<rparr>)" for t
        proof -
          have "connectToMQTT E (s\<lparr>trace := t\<rparr>) = connectToMQTT E (s1\<lparr>trace := t @ pre\<rparr>)"
            using down False
            by (subst connectToMQTT.simps)
               (simp add: Let_def s1_def pre_def st_def emit_def answered_def)
          with ev(2) show ?thesis by simp
        qed
        moreover have "trace s' = trace s @ (pre @ ev)"
          using ev(1) tr1 by simp
        ultimately show ?thesis by blast
      qed
    qed
  qed
qed

lemma connectToWiFi_blind: "trace_blind (connectToWiFi E)"
proof (rule trace_blindI)
  fix s s'
  assume r: "connectToWiFi E s = Some s'"
  define pre where "pre = [SerialPrint ''Connecting to Wi-Fi: '', SerialPrintln ssid, WifiBegin ssid password]"
  define s3 where "s3 = emit (WifiBegin ssid password) (emit (SerialPrintln ssid)
      (emit (SerialPrint ''Connecting to Wi-Fi: '') s))"
  define e where "e = SerialPrintln (CHR 0x0A # ''Wi-Fi Connected.'')"
  from r obtain s4 where s4: "connectToWiFi_while E s3 = Some s4" and s': "s' = emit e s4"
    by (auto simp: connectToWiFi_def Let_def s3_def e_def split: option.splits)
  note w = trace_blind_Some[OF wifi_while_blind s4]
  have tr3: "trace s3 = trace s @ pre"
    by (simp add: s3_def pre_def emit_def)
  have "trace s' = trace s @ (pre @ new_events s3 s4 @ [e])"
    unfolding s' by (simp add: emit_def, subst w(1), subst tr3) simp
  moreover have "connectToWiFi E (s\<lparr>trace := t\<rparr>)
      = Some (s'\<lparr>trace := t @ (pre @ new_events s3 s4 @ [e])\<rparr>)" for t
  proof -
    have "emit (WifiBegin ssid password) (emit (SerialPrintln ssid)
        (emit (SerialPrint ''Connecting to Wi-Fi: '') (s\<lparr>trace := t\<rparr>))) = s3\<lparr>trace := t @ pre\<rparr>"
      by (simp add: s3_def pre_def emit_def)
    then show ?thesis
      by (simp add: connectToWiFi_def Let_def w(2) s' e_def emit_def)
  qed
  ultimately show "\<exists>ev. trace s' = trace s @ ev
      \<and> (\<forall>t. connectToWiFi E (s\<lparr>trace := t\<rparr>) = Some (s'\<lparr>trace := t @ ev\<rparr>))"
    by blast
qed

lemma ensureWiFi_blind: "trace_blind (ensureWiFiConnection E)"
proof (rule trace_blindI)
  fix s s'
  assume r: "ensureWiFiConnection E s = Some s'"
  show "\<exists>ev. trace s' = trace s @ ev
      \<and> (\<forall>t. ensureWiFiConnection E (s\<lparr>trace := t\<rparr>) = Some (s'\<lparr>trace := t @ ev\<rparr>))"
  proof (cases "wifi_connected E (now s)")
    case True
    with r have s': "s' = answered (WifiStatus True) s"
      by (simp add: ensureWiFiConnection_def Let_def)
    have "ensureWiFiConnection E (s\<lparr>trace := t\<rparr>) = Some (s'\<lparr>trace := t @ [WifiStatus True]\<rparr>)" for t
      using True by (simp add: ensureWiFiConnection_def Let_def s' answered_def)
    moreover have "trace s' = trace s @ [WifiStatus True]"
      by (simp add: s' answered_def)
    ultimately show ?thesis by blast
  next
    case False
    define s1 where "s1 = answered (WifiStatus False) s"
    from False r have c: "connectToWiFi E s1 = Some s'"
      by (simp add: ensureWiFiConnection_def Let_def s1_def)
    note w = trace_blind_Some[OF connectToWiFi_blind c]
    have tr1: "trace s1 = trace s @ [WifiStatus False]"
      by (simp add: s1_def answered_def)
    have "trace s' = trace s @ ([WifiStatus False] @ new_events s1 s')"
      by (subst w(1), subst tr1) simp
    moreover have "ensureWiFiConnection E (s\<lparr>trace := t\<rparr>)
        = Some (s'\<lparr>trace := t @ ([WifiStatus False] @ new_events s1 s')\<rparr>)" for t
    proof -
      have "answered (WifiStatus False) (s\<lparr>trace := t\<rparr>) = s1\<lparr>trace := t @ [WifiStatus False]\<rparr>"
        by (simp add: s1_def answered_def)
      with False show ?thesis
        by (simp add: ensureWiFiConnection_def Let_def w(2))
    qed
    ultimately show ?thesis by blast
  qed
qed

lemma ensureMQTT_blind: "trace_blind (ensureMQTTConnection E)"
proof (rule trace_blindI)
  fix s s'
  assume r: "ensureMQTTConnection E s = Some s'"
  show "\<exists>ev. trace s' = trace s @ ev
      \<and> (\<forall>t. ensureMQTTConnection E (s\<lparr>trace := t\<rparr>) = Some (s'\<lparr>trace := t @ ev\<rparr>))"
  proof (cases "mqtt_connected E (now s)")
    case True
    with r have s': "s' = answered (MqttConnected True) s"
      by (simp add: ensureMQTTConnection_def Let_def)
    have "ensureMQTTConnection E (s\<lparr>trace := t\<rparr>) = Some (s'\<lparr>trace := t @ [MqttConnected True]\<rparr>)" for t
      using True by (simp add: ensureMQTTConnection_def Let_def s' answered_def)
    moreover have "trace s' = trace s @ [MqttConnected True]"
      by (simp add: s' answered_def)
    ultimately show ?thesis by blast
  next
    case False
    define s1 where "s1 = answered (MqttConnected False) s"
    from False r have c: "connectToMQTT E s1 = Some s'"
      by (simp add: ensureMQTTConnection_def Let_def s1_def)
    note w = trace_blind_Some[OF connectToMQTT_blind c]
    have tr1: "trace s1 = trace s @ [MqttConnected False]"
      by (simp add: s1_def answered_def)
    have "trace s' = trace s @ ([MqttConnected False] @ new_events s1 s')"
      by (subst w(1), subst tr1) simp
    moreover have "ensureMQTTConnection E (s\<lparr>trace := t\<rparr>)
        = Some (s'\<lparr>trace := t @ ([MqttConnected False] @ new_events s1 s')\<rparr>)" for t
    proof -
      have "answered (MqttConnected False) (s\<lparr>trace := t\<rparr>) = s1\<lparr>trace := t @ [MqttConnected False]\<rparr>"
        by (simp add: s1_def answered_def)
      with False show ?thesis
        by (simp add: ensureMQTTConnection_def Let_def w(2))
    qed
    ultimately show ?thesis by blast
  qed
qed

lemma tick_body_blind: "trace_blind (\<lambda>s. Some (tick_body E s))"
  by (rule trace_blind_pure[where ev = "\<lambda>s. tick_events E (now s) (lastReadTime s)"])
     (simp_all add: tick_body_eq)

lemma loop_blind: "trace_blind (loop E)"
proof -
  have "loop E = (\<lambda>s. case (case ensureWiFiConnection E s of None \<Rightarrow> None
                                | Some s1 \<Rightarrow> ensureMQTTConnection E s1) of
                       None \<Rightarrow> None | Some s2 \<Rightarrow> Some (tick_body E s2))"
    by (rule ext) (simp add: loop_split ensure_ready_def)
  then show ?thesis
    by (simp only: trace_blind_bind ensureWiFi_blind ensureMQTT_blind tick_body_blind)
qed

lemma publishGesture_retrace:
  "publishGesture E g s = (s\<lparr>now := Suc (now s)\<rparr>)\<lparr>trace := trace s @ publish_events E (now s) g\<rparr>"
  by (simp add: publishGesture_eq publish_events_def)

lemma send_fails_run: "loop env_send_fails world_one_call =
    Some (world_after_failure\<lparr>trace := drop 2 (trace world_after_failure)\<rparr>)"
  by (simp add: run_defs env_send_fails_def env_ready_def world_one_call_def world_after_failure_def)

lemmas wait_defs = link_waits_def session_waits_def failed_link_checks_def refused_connects_def

lemma retry_rounds_split: "retry_rounds es = link_waits es + session_waits es"
proof (induction es)
  case Nil
  then show ?case by (simp add: retry_rounds_def wait_defs)
next
  case (Cons e es)
  then show ?case by (cases e) (auto simp: retry_rounds_def wait_defs)
qed

lemma wait_summaryI:
  "trace s' = trace s @ ev \<Longrightarrow> failed_link_checks ev = link_waits ev + k \<Longrightarrow>
   refused_connects ev = session_waits ev \<Longrightarrow> wait_summary k s s'"
  unfolding wait_summary_def by blast

lemma wait_summary_new:
  assumes "wait_summary k s s'"
  shows "failed_link_checks (new_events s s') = link_waits (new_events s s') + k"
    and "refused_connects (new_events s s') = session_waits (new_events s s')"
proof -
  from assms obtain ev where ev: "trace s' = trace s @ ev"
    "failed_link_checks ev = link_waits ev + k" "refused_connects ev = session_waits ev"
    unfolding wait_summary_def by blast
  from ev(1) have "new_events s s' = ev" by (rule new_events_append)
  with ev show "failed_link_checks (new_events s s') = link_waits (new_events s s') + k"
    and "refused_connects (new_events s s') = session_waits (new_events s s')"
    by simp_all
qed

lemma wait_summary_extend:
  assumes "wait_summary k s1 s'" and "trace s1 = trace s @ pre"
    and "failed_link_checks pre + k = link_waits pre + k'"
    and "refused_connects pre = session_waits pre"
  shows "wait_summary k' s s'"
proof -
  from assms(1) obtain ev where ev: "trace s' = trace s1 @ ev"
    "failed_link_checks ev = link_waits ev + k" "refused_connects ev = session_waits ev"
    unfolding wait_summary_def by blast
  show ?thesis
  proof (rule wait_summaryI)
    show "trace s' = trace s @ (pre @ ev)" using ev(1) assms(2) by simp
    show "failed_link_checks (pre @ ev) = link_waits (pre @ ev) + k'"
      using ev(2) assms(3) by (simp add: wait_defs)
    show "refused_connects (pre @ ev) = session_waits (pre @ ev)"
      using ev(3) assms(4) by (simp add: wait_defs)
  qed
qed

lemma wait_summary_trans:
  assumes "wait_summary k s s1" and "wait_summary 0 s1 s'"
  shows "wait_summary k s s'"
proof -
  from assms(1) obtain ev where ev: "trace s1 = trace s @ ev"
    "failed_link_checks ev = link_waits ev + k" "refused_connects ev = session_waits ev"
    unfolding wait_summary_def by blast
  from assms(2) obtain ev' where ev': "trace s' = trace s1 @ ev'"
    "failed_link_checks ev' = link_waits ev' + 0" "refused_connects ev' = session_waits ev'"
    unfolding wait_summary_def by blast
  show ?thesis
  proof (rule wait_summaryI)
    show "trace s' = trace s @ (ev @ ev')" using ev(1) ev'(1) by simp
    show "failed_link_checks (ev @ ev') = link_waits (ev @ ev') + k"
      using ev(2) ev'(2) by (simp add: wait_defs)
    show "refused_connects (ev @ ev') = session_waits (ev @ ev')"
      using ev(3) ev'(3) by (simp add: wait_defs)
  qed
qed

lemma wifi_while_waits:
  assumes "connectToWiFi_while E s = Some s'"
  shows "wait_summary 0 s s'"
proof (rule connectToWiFi_while.raw_induct[where P = "\<lambda>E s s'. wait_summary 0 s s'", OF _ assms])
  fix f E s s'
  assume IH: "\<And>E s y. f E s = Some y \<Longrightarrow> wait_summary 0 s y"
    and body: "(let up = wifi_connected E (now s); s1 = answered (WifiStatus up) s
          in if \<not> up then f E (emit (SerialPrint ''.'') (emit (Delay 500) s1)) else Some s1) = Some s'"
  show "wait_summary 0 s s'"
  proof (cases "wifi_connected E (now s)")
    case True
    with body have "s' = answered (WifiStatus True) s"
      by (simp add: Let_def)
    then show ?thesis
      by (intro wait_summaryI[where ev = "[WifiStatus True]"]) (simp_all add: answered_def wait_defs)
  next
    case False
    let ?s1 = "emit (SerialPrint ''.'') (emit (Delay 500) (answered (WifiStatus False) s))"
    from False body have "f E ?s1 = Some s'"
      by (simp add: Let_def)
    then have "wait_summary 0 ?s1 s'" by (rule IH)
    then show ?thesis
      by (rule wait_summary_extend[where pre = "[WifiStatus False, Delay 500, SerialPrint ''.'']"])
         (simp_all add: emit_def answered_def wait_defs)
  qed
qed

lemma connectToMQTT_waits:
  assumes "connectToMQTT E s = Some s'"
  shows "wait_summary 0 s s'"
proof (rule connectToMQTT.raw_induct[where P = "\<lambda>E s s'. wait_summary 0 s s'", OF _ assms])
  fix f E s s'
  assume IH: "\<And>E s y. f E s = Some y \<Longrightarrow> wait_summary 0 s y"
    and body: "(let c = mqtt_connected E (now s);
           s1 = answered (MqttConnected c) s
       in if \<not> c then
           (let s2 = emit (MqttConnectCall ''ESP32'') (emit (SerialPrint ''Connecting to MQTT...'') s1);
                ok = mqtt_connect E (now s2) ''ESP32'';
                s3 = answered (MqttConnectResult ok) s2
            in if ok then f E (emit (SerialPrintln ''Connected to MQTT Broker.'') s3)
               else
                 (let s4 = emit (SerialPrint ''Failed. State='') s3;
                      st = mqtt_state E (now s4);
                      s5 = emit (SerialPrintlnState st) (answered (MqttState st) s4)
                  in f E (emit (Delay 2000) s5)))
         else Some s1) = Some s'"
  show "wait_summary 0 s s'"
  proof (cases "mqtt_connected E (now s)")
    case True
    with body have "s' = answered (MqttConnected True) s"
      by (simp add: Let_def)
    then show ?thesis
      by (intro wait_summaryI[where ev = "[MqttConnected True]"]) (simp_all add: answered_def wait_defs)
  next
    case False
    note down = this
    show ?thesis
    proof (cases "mqtt_connect E (Suc (now s)) ''ESP32''")
      case True
      let ?s1 = "emit (SerialPrintln ''Connected to MQTT Broker.'')
         (answered (MqttConnectResult True)
           (emit (MqttConnectCall ''ESP32'') (emit (SerialPrint ''Connecting to MQTT...'')
             (answered (MqttConnected False) s))))"
      from down True body have "f E ?s1 = Some s'"
        by (simp add: Let_def emit_def answered_def)
      then have "wait_summary 0 ?s1 s'" by (rule IH)
      then show ?thesis
        by (rule wait_summary_extend[where pre = "[MqttConnected False, SerialPrint ''Connecting to MQTT...'',
               MqttConnectCall ''ESP32'', MqttConnectResult True, SerialPrintln ''Connected to MQTT Broker.'']"])
           (simp_all add: emit_def answered_def wait_defs)
    next
      case False
      let ?st = "mqtt_state E (Suc (Suc (now s)))"
      let ?s1 = "emit (Delay 2000) (emit (SerialPrintlnState ?st) (answered (MqttState ?st)
         (emit (SerialPrint ''Failed. State='')
         (answered (MqttConnectResult False)
           (emit (MqttConnectCall ''ESP32'') (emit (SerialPrint ''Connecting to MQTT...'')
             (answered (MqttConnected False) s)))))))"
      from down False body have "f E ?s1 = Some s'"
        by (simp add: Let_def emit_def answered_def)
      then have "wait_summary 0 ?s1 s'" by (rule IH)
      then show ?thesis
        by (rule wait_summary_extend[where pre = "[MqttConnected False, SerialPrint ''Connecting to MQTT...'',
               MqttConnectCall ''ESP32'', MqttConnectResult False, SerialPrint ''Failed. State='',
               MqttState ?st, SerialPrintlnState ?st, Delay 2000]"])
           (simp_all add: emit_def answered_def wait_defs)
    qed
  qed
qed

lemma ensure_ready_waits:
  assumes "ensure_ready E s = Some s'"
  shows "wait_summary (if wifi_connected E (now s) then 0 else 1) s s'"
proof -
  from assms obtain s1 where s1: "ensureWiFiConnection E s = Some s1"
    and s2: "ensureMQTTConnection E s1 = Some s'"
    by (auto simp: ensure_ready_def split: option.splits)
  have w: "wait_summary (if wifi_connected E (now s) then 0 else 1) s s1"
  proof (cases "wifi_connected E (now s)")
    case True
    with s1 have "s1 = answered (WifiStatus True) s"
      by (simp add: ensureWiFiConnection_def Let_def)
    with True show ?thesis
      by (intro wait_summaryI[where ev = "[WifiStatus True]"]) (simp_all add: answered_def wait_defs)
  next
    case False
    let ?s3 = "emit (WifiBegin ssid password) (emit (SerialPrintln ssid)
        (emit (SerialPrint ''Connecting to Wi-Fi: '') (answered (WifiStatus False) s)))"
    from False s1 obtain s4 where s4: "connectToWiFi_while E ?s3 = Some s4"
      and s1': "s1 = emit (SerialPrintln (CHR 0x0A # ''Wi-Fi Connected.'')) s4"
      by (auto simp: ensureWiFiConnection_def connectToWiFi_def Let_def split: option.splits)
    have "wait_summary 0 s4 s1"
      by (intro wait_summaryI[where ev = "[SerialPrintln (CHR 0x0A # ''Wi-Fi Connected.'')]"])
         (simp_all add: s1' emit_def wait_defs)
    with wifi_while_waits[OF s4] have "wait_summary 0 ?s3 s1"
      by (rule wait_summary_trans)
    then have "wait_summary 1 s s1"
      by (rule wait_summary_extend[where pre = "[WifiStatus False, SerialPrint ''Connecting to Wi-Fi: '',
             SerialPrintln ssid, WifiBegin ssid password]"])
         (simp_all add: emit_def answered_def wait_defs)
    with False show ?thesis by simp
  qed
  have m: "wait_summary 0 s1 s'"
  proof (cases "mqtt_connected E (now s1)")
    case True
    with s2 have "s' = answered (MqttConnected True) s1"
      by (simp add: ensureMQTTConnection_def Let_def)
    then show ?thesis
      by (intro wait_summaryI[where ev = "[MqttConnected True]"]) (simp_all add: answered_def wait_defs)
  next
    case False
    with s2 have "connectToMQTT E (answered (MqttConnected False) s1) = Some s'"
      by (simp add: ensureMQTTConnection_def Let_def)
    then have "wait_summary 0 (answered (MqttConnected False) s1) s'"
      by (rule connectToMQTT_waits)
    then show ?thesis
      by (rule wait_summary_extend[where pre = "[MqttConnected False]"])
         (simp_all add: answered_def wait_defs)
  qed
  from w m show ?thesis by (rule wait_summary_trans)
qed

lemma wifi_while_rounds:
  "\<forall>i<n. \<not> wifi_connected E (now s + i) \<Longrightarrow> wifi_connected E (now s + n) \<Longrightarrow>
   \<exists>s'. connectToWiFi_while E s = Some s' \<and> trace s' = trace s @ new_events s s'
      \<and> link_waits (new_events s s') = n \<and> session_waits (new_events s s') = 0
      \<and> now s' = now s + n + 1 \<and> lastReadTime s' = lastReadTime s"
proof (induction n arbitrary: s)
  case 0
  then have "connectToWiFi_while E s = Some (answered (WifiStatus True) s)"
    by (subst connectToWiFi_while.simps) (simp add: Let_def)
  then show ?case
    by (simp add: answered_def new_events_def wait_defs)
next
  case (Suc n)
  define pre where "pre = [WifiStatus False, Delay 500, SerialPrint ''.'']"
  define s1 where "s1 = emit (SerialPrint ''.'') (emit (Delay 500) (answered (WifiStatus False) s))"
  have down: "\<not> wifi_connected E (now s)"
    using Suc.prems(1) by (metis add.right_neutral zero_less_Suc)
  have now1: "now s1 = Suc (now s)" and tr1: "trace s1 = trace s @ pre"
    and lrt1: "lastReadTime s1 = lastReadTime s"
    by (simp_all add: s1_def pre_def emit_def answered_def)
  have "\<forall>i<n. \<not> wifi_connected E (now s1 + i)"
    using Suc.prems(1) now1 by (metis Suc_less_eq add_Suc_shift)
  moreover have "wifi_connected E (now s1 + n)"
    using Suc.prems(2) now1 by simp
  ultimately obtain s' where s': "connectToWiFi_while E s1 = Some s'"
    "trace s' = trace s1 @ new_events s1 s'" "link_waits (new_events s1 s') = n"
    "session_waits (new_events s1 s') = 0"
    "now s' = now s1 + n + 1" "lastReadTime s' = lastReadTime s1"
    using Suc.IH[of s1] by blast
  have step: "connectToWiFi_while E s = connectToWiFi_while E s1"
    using down by (subst connectToWiFi_while.simps) (simp add: Let_def s1_def)
  have "trace s' = trace s @ (pre @ new_events s1 s')"
    by (subst s'(2), subst tr1) simp
  then have new: "new_events s s' = pre @ new_events s1 s'"
    by (rule new_events_append)
  have "link_waits (new_events s s') = Suc n" "session_waits (new_events s s') = 0"
    using s'(3,4) unfolding new by (simp_all add: wait_defs pre_def)
  moreover have "trace s' = trace s @ new_events s s'"
    unfolding new by (subst s'(2), subst tr1) simp
  ultimately show ?case
    using step s'(1,5,6) now1 lrt1 by simp
qed

text \<open>After \<open>n\<close> refused connects the session loop stands where it began, \<open>3 n\<close> calls later.\<close>

lemma mqtt_refused_rounds:
  "\<forall>j<n. \<not> mqtt_connected E (now s + 3 * j) \<and> \<not> mqtt_connect E (now s + 3 * j + 1) ''ESP32'' \<Longrightarrow>
   \<exists>sn pre. connectToMQTT E s = connectToMQTT E sn \<and> trace sn = trace s @ pre
      \<and> session_waits pre = n \<and> link_waits pre = 0
      \<and> now sn = now s + 3 * n \<and> lastReadTime sn = lastReadTime s"
proof (induction n arbitrary: s)
  case 0
  have "connectToMQTT E s = connectToMQTT E s \<and> trace s = trace s @ []
      \<and> session_waits [] = 0 \<and> link_waits [] = 0
      \<and> now s = now s + 3 * 0 \<and> lastReadTime s = lastReadTime s"
    by (simp add: wait_defs)
  then show ?case by blast
next
  case (Suc n)
  define st where "st = mqtt_state E (Suc (Suc (now s)))"
  define pre where "pre = [MqttConnected False, SerialPrint ''Connecting to MQTT...'',
               MqttConnectCall ''ESP32'', MqttConnectResult False, SerialPrint ''Failed. State='',
               MqttState st, SerialPrintlnState st, Delay 2000]"
  define s1 where "s1 = emit (Delay 2000) (emit (SerialPrintlnState st) (answered (MqttState st)
         (emit (SerialPrint ''Failed. State='')
         (answered (MqttConnectResult False)
           (emit (MqttConnectCall ''ESP32'') (emit (SerialPrint ''Connecting to MQTT...'')
             (answered (MqttConnected False) s)))))))"
  have "\<not> mqtt_connected E (now s + 3 * 0) \<and> \<not> mqtt_connect E (now s + 3 * 0 + 1) ''ESP32''"
    using Suc.prems(1) by blast
  then have down: "\<not> mqtt_connected E (now s)" "\<not> mqtt_connect E (Suc (now s)) ''ESP32''"
    by simp_all
  have now1: "now s1 = now s + 3" and tr1: "trace s1 = trace s @ pre"
    and lrt1: "lastReadTime s1 = lastReadTime s"
    by (simp_all add: s1_def pre_def emit_def answered_def)
  have eq: "now s1 + 3 * j = now s + 3 * Suc j" for j
    by (simp add: now1)
  have "\<not> mqtt_connected E (now s1 + 3 * j) \<and> \<not> mqtt_connect E (now s1 + 3 * j + 1) ''ESP32''"
    if "j < n" for j
  proof -
    from that have "Suc j < Suc n" by simp
    with Suc.prems(1) show ?thesis
      unfolding eq by blast
  qed
  then obtain sn pre' where sn: "connectToMQTT E s1 = connectToMQTT E sn"
    "trace sn = trace s1 @ pre'" "session_waits pre' = n" "link_waits pre' = 0"
    "now sn = now s1 + 3 * n" "lastReadTime sn = lastReadTime s1"
    using Suc.IH[of s1] by blast
  have step: "connectToMQTT E s = connectToMQTT E s1"
    using down by (subst connectToMQTT.simps) (simp add: Let_def emit_def answered_def s1_def st_def)
  have "connectToMQTT E s = connectToMQTT E sn"
    using step sn(1) by simp
  moreover have "trace sn = trace s @ (pre @ pre')"
    using sn(2) tr1 by simp
  moreover have "session_waits (pre @ pre') = Suc n" "link_waits (pre @ pre') = 0"
    using sn(3,4) by (simp_all add: wait_defs pre_def)
  moreover have "now sn = now s + 3 * Suc n"
    using sn(5) now1 by simp
  moreover have "lastReadTime sn = lastReadTime s"
    using sn(6) lrt1 by simp
  ultimately show ?case by blast
qed

lemma mqtt_exit_connected:
  "mqtt_connected E (now s) \<Longrightarrow> connectToMQTT E s = Some (answered (MqttConnected True) s)"
  by (subst connectToMQTT.simps) (simp add: Let_def)

lemma mqtt_exit_accepted:
  assumes "\<not> mqtt_connected E (now s)" and "mqtt_connect E (now s + 1) ''ESP32''"
    and "mqtt_connected E (now s + 2)"
  shows "connectToMQTT E s =
     Some (s\<lparr>now := now s + 3,
             trace := trace s @ [MqttConnected False, SerialPrint ''Connecting to MQTT...'',
               MqttConnectCall ''ESP32'', MqttConnectResult True,
               SerialPrintln ''Connected to MQTT Broker.'', MqttConnected True]\<rparr>)"
proof -
  define s1 where "s1 = emit (SerialPrintln ''Connected to MQTT Broker.'')
     (answered (MqttConnectResult True)
       (emit (MqttConnectCall ''ESP32'') (emit (SerialPrint ''Connecting to MQTT...'')
         (answered (MqttConnected False) s))))"
  have now1: "now s1 = now s + 2"
    by (simp add: s1_def emit_def answered_def)
  have "connectToMQTT E s = connectToMQTT E s1"
    using assms(1,2) by (subst connectToMQTT.simps) (simp add: Let_def emit_def answered_def s1_def)
  also have "\<dots> = Some (answered (MqttConnected True) s1)"
    using assms(3) by (intro mqtt_exit_connected) (simp add: now1)
  finally show ?thesis
    by (simp add: s1_def emit_def answered_def)
qed

text \<open>
  The session loop after \<open>n\<close> refused connects: it returns when the session then
  reports connected (\<open>accepted = False\<close>), or when it reports lost once more, the next
  connect is accepted and the session reports connected after it (\<open>accepted = True\<close>).
\<close>

lemma mqtt_rounds:
  assumes "\<forall>j<n. \<not> mqtt_connected E (now s + 3 * j) \<and> \<not> mqtt_connect E (now s + 3 * j + 1) ''ESP32''"
    and "mqtt_connected E (now s + 3 * n) \<or>
         (mqtt_connect E (now s + 3 * n + 1) ''ESP32'' \<and> mqtt_connected E (now s + 3 * n + 2))"
  shows "\<exists>s'. connectToMQTT E s = Some s' \<and> trace s' = trace s @ new_events s s'
      \<and> session_waits (new_events s s') = n \<and> link_waits (new_events s s') = 0
      \<and> lastReadTime s' = lastReadTime s"
proof -
  from mqtt_refused_rounds[OF assms(1)] obtain sn pre
    where sn: "connectToMQTT E s = connectToMQTT E sn" "trace sn = trace s @ pre"
      "session_waits pre = n" "link_waits pre = 0"
      "now sn = now s + 3 * n" "lastReadTime sn = lastReadTime s"
    by blast
  have "\<exists>s' ev. connectToMQTT E sn = Some s' \<and> trace s' = trace sn @ ev
      \<and> session_waits ev = 0 \<and> link_waits ev = 0 \<and> lastReadTime s' = lastReadTime sn"
  proof (cases "mqtt_connected E (now sn)")
    case True
    from mqtt_exit_connected[OF this]
    have "connectToMQTT E sn = Some (answered (MqttConnected True) sn)
        \<and> trace (answered (MqttConnected True) sn) = trace sn @ [MqttConnected True]
        \<and> session_waits [MqttConnected True] = 0 \<and> link_waits [MqttConnected True] = 0
        \<and> lastReadTime (answered (MqttConnected True) sn) = lastReadTime sn"
      by (simp add: answered_def wait_defs)
    then show ?thesis by blast
  next
    case False
    with assms(2) sn(5) have "mqtt_connect E (now sn + 1) ''ESP32''" "mqtt_connected E (now sn + 2)"
      by simp_all
    from mqtt_exit_accepted[OF False this] show ?thesis
      by (intro exI[of _ "sn\<lparr>now := now sn + 3,
             trace := trace sn @ [MqttConnected False, SerialPrint ''Connecting to MQTT...'',
               MqttConnectCall ''ESP32'', MqttConnectResult True,
               SerialPrintln ''Connected to MQTT Broker.'', MqttConnected True]\<rparr>"]
          exI[of _ "[MqttConnected False, SerialPrint ''Connecting to MQTT...'',
               MqttConnectCall ''ESP32'', MqttConnectResult True,
               SerialPrintln ''Connected to MQTT Broker.'', MqttConnected True]"])
        (simp add: wait_defs)
  qed
  then obtain s' ev where s': "connectToMQTT E sn = Some s'" "trace s' = trace sn @ ev"
    "session_waits ev = 0" "link_waits ev = 0" "lastReadTime s' = lastReadTime sn"
    by blast
  have "trace s' = trace s @ (pre @ ev)"
    using s'(2) sn(2) by simp
  then have new: "new_events s s' = pre @ ev"
    by (rule new_events_append)
  have "session_waits (new_events s s') = n" "link_waits (new_events s s') = 0"
    using sn(3,4) s'(3,4) unfolding new by (simp_all add: wait_defs)
  moreover have "trace s' = trace s @ new_events s s'"
    unfolding new using s'(2) sn(2) by simp
  ultimately show ?thesis
    using sn(1,6) s'(1,5) by simp
qed

lemma ensure_ready_link_rounds:
  assumes "\<not> wifi_connected E (now s)" and "\<forall>i<n. \<not> wifi_connected E (now s + 1 + i)"
    and "wifi_connected E (now s + 1 + n)" and "mqtt_connected E (now s + 2 + n)"
  shows "\<exists>s'. ensure_ready E s = Some s' \<and> link_waits (new_events s s') = n
      \<and> session_waits (new_events s s') = 0"
proof -
  let ?pre = "[WifiStatus False, SerialPrint ''Connecting to Wi-Fi: '', SerialPrintln ssid,
               WifiBegin ssid password]"
  let ?s3 = "emit (WifiBegin ssid password) (emit (SerialPrintln ssid)
               (emit (SerialPrint ''Connecting to Wi-Fi: '') (answered (WifiStatus False) s)))"
  have now3: "now ?s3 = now s + 1" and tr3: "trace ?s3 = trace s @ ?pre"
    by (simp_all add: emit_def answered_def)
  from assms(2,3) obtain s4 where s4: "connectToWiFi_while E ?s3 = Some s4"
    "trace s4 = trace ?s3 @ new_events ?s3 s4" "link_waits (new_events ?s3 s4) = n"
    "session_waits (new_events ?s3 s4) = 0" "now s4 = now ?s3 + n + 1"
    using wifi_while_rounds[of n E ?s3] unfolding now3 by blast
  let ?s1 = "emit (SerialPrintln (CHR 0x0A # ''Wi-Fi Connected.'')) s4"
  let ?s' = "answered (MqttConnected True) ?s1"
  have w: "ensureWiFiConnection E s = Some ?s1"
    using assms(1) s4(1) by (simp add: ensureWiFiConnection_def connectToWiFi_def Let_def)
  have "now ?s1 = now s + 2 + n"
    using s4(5) now3 by (simp add: emit_def)
  with assms(4) have m: "ensureMQTTConnection E ?s1 = Some ?s'"
    by (simp add: ensureMQTTConnection_def Let_def)
  have "trace ?s' = trace s @ (?pre @ new_events ?s3 s4 @
      [SerialPrintln (CHR 0x0A # ''Wi-Fi Connected.''), MqttConnected True])"
    using s4(2) tr3 by (simp add: emit_def answered_def)
  then have "new_events s ?s' = ?pre @ new_events ?s3 s4 @
      [SerialPrintln (CHR 0x0A # ''Wi-Fi Connected.''), MqttConnected True]"
    by (rule new_events_append)
  then have "link_waits (new_events s ?s') = n" "session_waits (new_events s ?s') = 0"
    using s4(3,4) by (simp_all add: wait_defs)
  moreover have "ensure_ready E s = Some ?s'"
    using w m by (simp add: ensure_ready_def)
  ultimately show ?thesis by blast
qed

lemma ensure_ready_session_rounds:
  assumes "wifi_connected E (now s)" and "\<not> mqtt_connected E (now s + 1)"
    and "\<forall>j<n. \<not> mqtt_connected E (now s + 2 + 3 * j) \<and> \<not> mqtt_connect E (now s + 3 + 3 * j) ''ESP32''"
    and "mqtt_connected E (now s + 2 + 3 * n) \<or>
         (mqtt_connect E (now s + 3 + 3 * n) ''ESP32'' \<and> mqtt_connected E (now s + 4 + 3 * n))"
  shows "\<exists>s'. ensure_ready E s = Some s' \<and> session_waits (new_events s s') = n
      \<and> link_waits (new_events s s') = 0"
proof -
  define s2 where "s2 = answered (MqttConnected False) (answered (WifiStatus True) s)"
  have now2: "now s2 = now s + 2" and tr2: "trace s2 = trace s @ [WifiStatus True, MqttConnected False]"
    by (simp_all add: s2_def answered_def)
  have e: "now s2 + 3 * j = now s + 2 + 3 * j" "now s + 2 + 3 * j + 1 = now s + 3 + 3 * j"
    "now s + 2 + 3 * j + 2 = now s + 4 + 3 * j" for j
    unfolding now2 by simp_all
  have "\<forall>j<n. \<not> mqtt_connected E (now s2 + 3 * j) \<and> \<not> mqtt_connect E (now s2 + 3 * j + 1) ''ESP32''"
    unfolding e by (rule assms(3))
  moreover have "mqtt_connected E (now s2 + 3 * n) \<or>
         (mqtt_connect E (now s2 + 3 * n + 1) ''ESP32'' \<and> mqtt_connected E (now s2 + 3 * n + 2))"
    unfolding e by (rule assms(4))
  ultimately obtain s' where s': "connectToMQTT E s2 = Some s'"
    "trace s' = trace s2 @ new_events s2 s'" "session_waits (new_events s2 s') = n"
    "link_waits (new_events s2 s') = 0"
    using mqtt_rounds[of n E s2] by blast
  have w: "ensureWiFiConnection E s = Some (answered (WifiStatus True) s)"
    using assms(1) by (simp add: ensureWiFiConnection_def Let_def)
  have "now (answered (WifiStatus True) s) = now s + 1" by (simp add: answered_def)
  with assms(2) s'(1) have m: "ensureMQTTConnection E (answered (WifiStatus True) s) = Some s'"
    by (simp add: ensureMQTTConnection_def Let_def s2_def)
  have "trace s' = trace s @ ([WifiStatus True, MqttConnected False] @ new_events s2 s')"
    by (subst s'(2), subst tr2) simp
  then have "new_events s s' = [WifiStatus True, MqttConnected False] @ new_events s2 s'"
    by (rule new_events_append)
  then have "session_waits (new_events s s') = n" "link_waits (new_events s s') = 0"
    using s'(3,4) by (simp_all add: wait_defs)
  moreover have "ensure_ready E s = Some s'"
    using w m by (simp add: ensure_ready_def)
  ultimately show ?thesis by blast
qed

lemma ensure_ready_polled_ready:
  assumes "wifi_connected E (now s)" and "mqtt_connected E (now s + 1)"
  shows "ensure_ready E s = Some (polled_ready s)"
  using assms
  by (simp add: ensure_ready_def ensureWiFiConnection_def ensureMQTTConnection_def
      polled_ready_def answered_def Let_def)

lemma ensure_ready_polled_reconnected:
  assumes "wifi_connected E (now s)" and "\<not> mqtt_connected E (now s + 1)"
    and "\<not> mqtt_connected E (now s + 2)" and "mqtt_connect E (now s + 3) ''ESP32''"
    and "mqtt_connected E (now s + 4)"
  shows "ensure_ready E s = Some (polled_reconnected s)"
proof -
  define s2 where "s2 = answered (MqttConnected False) (answered (WifiStatus True) s)"
  have now2: "now s2 = now s + 2"
    by (simp add: s2_def answered_def)
  have "connectToMQTT E s2 =
     Some (s2\<lparr>now := now s2 + 3,
             trace := trace s2 @ [MqttConnected False, SerialPrint ''Connecting to MQTT...'',
               MqttConnectCall ''ESP32'', MqttConnectResult True,
               SerialPrintln ''Connected to MQTT Broker.'', MqttConnected True]\<rparr>)"
    using assms(3-5) by (intro mqtt_exit_accepted) (simp_all add: now2 eval_nat_numeral)
  then have "connectToMQTT E s2 = Some (polled_reconnected s)"
    by (simp add: s2_def polled_reconnected_def answered_def)
  then show ?thesis
    using assms(1,2)
    by (simp add: ensure_ready_def ensureWiFiConnection_def ensureMQTTConnection_def
        s2_def answered_def Let_def)
qed

lemma tick_events_due:
  "readInterval \<le> millis E n - lrt \<Longrightarrow>
   tick_events E n lrt =
     Millis (millis E n) # sense_events E (n + 1) @
       (if classify (frame_at E (n + 1)) \<noteq> 0
        then publish_events E (n + 8) (classify (frame_at E (n + 1))) else [])"
  by (simp add: tick_events_def)

section \<open>The claims\<close>

subsection \<open>C1\<close>

text \<open>
  C1. The classifier is a function of the frame alone and applies its five rules in the
  order of the source, the first match winning: it returns the code of Fist exactly when
  \<open>flex1 < 500\<close>, \<open>flex2 < 500\<close> and \<open>touch1\<close> is high; otherwise that of OpenHand
  exactly when \<open>flex1 > 2000\<close>, \<open>flex2 > 2000\<close> and \<open>touch2\<close> is high; otherwise that
  of Left exactly when \<open>accelX < -5.0\<close>; otherwise that of Right exactly when
  \<open>accelX > 5.0\<close>; otherwise 0. The comparisons are strict (\<open>flex1 = 500\<close> is not a
  fist), a frame that satisfies rules 1 and 3 is a fist, and \<^verbatim>\<open>detectGesture\<close>
  returns the classification of the frame it has read.
\<close>

theorem classify_priority_order:
  "(classify f = GESTURE_FIST \<longleftrightarrow> (flex1 f <s 500 \<and> flex2 f <s 500 \<and> touch1 f = HIGH))
 \<and> (classify f = GESTURE_OPEN_HAND \<longleftrightarrow>
      \<not> (flex1 f <s 500 \<and> flex2 f <s 500 \<and> touch1 f = HIGH)
      \<and> (2000 <s flex1 f \<and> 2000 <s flex2 f \<and> touch2 f = HIGH))
 \<and> (classify f = GESTURE_LEFT \<longleftrightarrow>
      \<not> (flex1 f <s 500 \<and> flex2 f <s 500 \<and> touch1 f = HIGH)
      \<and> \<not> (2000 <s flex1 f \<and> 2000 <s flex2 f \<and> touch2 f = HIGH)
      \<and> float_less (accelX f) (Finite (- 5)))
 \<and> (classify f = GESTURE_RIGHT \<longleftrightarrow>
      \<not> (flex1 f <s 500 \<and> flex2 f <s 500 \<and> touch1 f = HIGH)
      \<and> \<not> (2000 <s flex1 f \<and> 2000 <s flex2 f \<and> touch2 f = HIGH)
      \<and> \<not> float_less (accelX f) (Finite (- 5))
      \<and> float_less (Finite 5) (accelX f))
 \<and> (classify f = 0 \<longleftrightarrow>
      \<not> (flex1 f <s 500 \<and> flex2 f <s 500 \<and> touch1 f = HIGH)
      \<and> \<not> (2000 <s flex1 f \<and> 2000 <s flex2 f \<and> touch2 f = HIGH)
      \<and> \<not> float_less (accelX f) (Finite (- 5))
      \<and> \<not> float_less (Finite 5) (accelX f))
 \<and> (flex1 f = 500 \<longrightarrow> classify f \<noteq> GESTURE_FIST)
 \<and> (flex1 f <s 500 \<and> flex2 f <s 500 \<and> touch1 f = HIGH \<and> float_less (accelX f) (Finite (- 5))
      \<longrightarrow> classify f = GESTURE_FIST)
 \<and> fst (detectGesture E s) = classify (frame_at E (now s))"
  by (simp add: classify_def GESTURE_FIST_def GESTURE_OPEN_HAND_def GESTURE_LEFT_def
      GESTURE_RIGHT_def detectGesture_eq)

theorem classify_priority_order_witness:
  "flex1 frame_fist_left <s 500 \<and> flex2 frame_fist_left <s 500 \<and> touch1 frame_fist_left = HIGH
   \<and> float_less (accelX frame_fist_left) (Finite (- 5))
   \<and> classify frame_fist_left = GESTURE_FIST
   \<and> flex1 frame_boundary = 500 \<and> classify frame_boundary \<noteq> GESTURE_FIST
   \<and> classify frame_boundary = 0"
  using classify_priority_order[of frame_fist_left env_ready world_init]
    classify_priority_order[of frame_boundary env_ready world_init]
  by (simp add: frame_fist_left_def frame_boundary_def HIGH_def GESTURE_FIST_def)

subsection \<open>C2\<close>

text \<open>
  C2. The debounce of a touch pin makes two digital reads with a wait of 50 ms between
  them. When the second read equals the first it returns that value, high or low; when
  they differ it returns \<open>LOW\<close>, whichever of the two was high.
\<close>

theorem debounce_two_reads:
  "trace (snd (debounceTouchSensor E pin s)) =
      trace s @ [DigitalRead pin (digitalRead E (now s) pin), Delay 50,
                 DigitalRead pin (digitalRead E (Suc (now s)) pin)]
   \<and> (digitalRead E (Suc (now s)) pin = digitalRead E (now s) pin \<longrightarrow>
        fst (debounceTouchSensor E pin s) = digitalRead E (now s) pin)
   \<and> (digitalRead E (Suc (now s)) pin \<noteq> digitalRead E (now s) pin \<longrightarrow>
        fst (debounceTouchSensor E pin s) = LOW)"
  by (simp add: debounceTouchSensor_eq debounced_def)

theorem debounce_two_reads_witness:
  "digitalRead env_ready (Suc (now world_init)) TOUCH_SENSOR_1_PIN
     = digitalRead env_ready (now world_init) TOUCH_SENSOR_1_PIN
   \<and> fst (debounceTouchSensor env_ready TOUCH_SENSOR_1_PIN world_init) = HIGH
   \<and> digitalRead env_untouched (Suc (now world_init)) TOUCH_SENSOR_1_PIN
     = digitalRead env_untouched (now world_init) TOUCH_SENSOR_1_PIN
   \<and> fst (debounceTouchSensor env_untouched TOUCH_SENSOR_1_PIN world_init) = LOW
   \<and> digitalRead env_bounce (now world_init) TOUCH_SENSOR_1_PIN = HIGH
   \<and> digitalRead env_bounce (Suc (now world_init)) TOUCH_SENSOR_1_PIN = LOW
   \<and> fst (debounceTouchSensor env_bounce TOUCH_SENSOR_1_PIN world_init) = LOW"
  using debounce_two_reads[of env_ready TOUCH_SENSOR_1_PIN world_init]
    debounce_two_reads[of env_untouched TOUCH_SENSOR_1_PIN world_init]
    debounce_two_reads[of env_bounce TOUCH_SENSOR_1_PIN world_init]
  by (simp add: env_ready_def env_untouched_def env_bounce_def world_init_def HIGH_def LOW_def)

subsection \<open>C3\<close>

text \<open>
  C3. For each of the four gesture codes the publisher formats the payload \<open>0xNN\<close>:
  four characters, upper-case hexadecimal, padded with a zero (\<open>0x01\<close> for Fist,
  \<open>0x02\<close> for OpenHand, \<open>0x03\<close> for Left, \<open>0x04\<close> for Right), and its first
  event is the send of that string on the one topic \<open>robotic_arm/commands\<close>; it is
  the only send of the call.
\<close>

theorem publish_payload_format:
  "snprintf_0x02X 10 GESTURE_FIST = ''0x01'' \<and> snprintf_0x02X 10 GESTURE_OPEN_HAND = ''0x02''
   \<and> snprintf_0x02X 10 GESTURE_LEFT = ''0x03'' \<and> snprintf_0x02X 10 GESTURE_RIGHT = ''0x04''
   \<and> mqttTopic = ''robotic_arm/commands''
   \<and> (g \<in> {GESTURE_FIST, GESTURE_OPEN_HAND, GESTURE_LEFT, GESTURE_RIGHT} \<longrightarrow>
        length (snprintf_0x02X 10 g) = 4
        \<and> trace (publishGesture E g s) = trace s @ new_events s (publishGesture E g s)
        \<and> take 1 (new_events s (publishGesture E g s)) =
            [Publish mqttTopic (snprintf_0x02X 10 g)
               (mqtt_publish E (now s) mqttTopic (snprintf_0x02X 10 g))]
        \<and> payloads (new_events s (publishGesture E g s)) = [snprintf_0x02X 10 g])"
proof -
  have "trace (publishGesture E g s) = trace s @ new_events s (publishGesture E g s)"
    by (simp add: new_events_def publishGesture_eq)
  moreover have "take 1 (new_events s (publishGesture E g s)) =
            [Publish mqttTopic (snprintf_0x02X 10 g)
               (mqtt_publish E (now s) mqttTopic (snprintf_0x02X 10 g))]"
    by (simp add: new_events_publish publish_events_def)
  moreover have "payloads (new_events s (publishGesture E g s)) = [snprintf_0x02X 10 g]"
    by (simp add: new_events_publish payloads_publish_events)
  moreover have "g \<in> {GESTURE_FIST, GESTURE_OPEN_HAND, GESTURE_LEFT, GESTURE_RIGHT} \<longrightarrow>
        length (snprintf_0x02X 10 g) = 4"
    by (auto simp: payload_codes)
  ultimately show ?thesis
    by (simp add: payload_codes mqttTopic_def)
qed

theorem publish_payload_format_witness:
  "GESTURE_LEFT \<in> {GESTURE_FIST, GESTURE_OPEN_HAND, GESTURE_LEFT, GESTURE_RIGHT}
   \<and> trace (publishGesture env_ready GESTURE_LEFT world_init) =
       [Publish ''robotic_arm/commands'' ''0x03'' True, SerialPrint ''Published gesture code: '',
        SerialPrintln ''0x03'']"
  using publish_payload_format[of GESTURE_LEFT env_ready world_init]
  by (simp add: env_ready_def world_init_def new_events_def publishGesture_eq)

subsection \<open>C4\<close>

text \<open>
  Against C4 as stated: the link is reported lost at the start of the second iteration
  while the session layer keeps reporting connected. The states passed through, from
  \<open>(Down, Disconnected)\<close> at start-up, include \<open>(Down, Connected)\<close>, and from
  the loss of the link to the end of the poll the session state is never
  \<open>Disconnected\<close>: the sketch re-associates the link and leaves the session alone.
\<close>

theorem session_survives_link_loss_counterexample:
  "loop env_link_loss world_init = Some world_link_tick1
   \<and> loop env_link_loss world_link_tick1 = Some world_link_tick2
   \<and> conn_states (Down, Disconnected) (trace world_link_tick2) =
       [(Down, Disconnected), (Up, Disconnected), (Up, Connected), (Up, Connected),
        (Down, Connected), (Down, Connected), (Down, Connected), (Down, Connected),
        (Up, Connected), (Up, Connected), (Up, Connected), (Up, Connected)]"
  by (simp add: link_loss_tick1 link_loss_tick2) (simp add: world_link_tick2_def conn_step_def)

text \<open>
  C4, amended. In every poll of the supervisor that returns, and in every iteration of
  the main loop that returns, each call to the session layer (status, connect, state,
  send) comes after the link has answered that it is up in that same poll, with no later
  answer to the contrary; and at the end the link state is \<open>Up\<close> and the session
  state \<open>Connected\<close>, whatever they were before. The sketch never sets the session
  to \<open>Disconnected\<close> because the link is lost: when the link is back and the session
  layer still answers connected, the poll ends with that one answer.
\<close>

theorem session_calls_only_when_link_up:
  "(ensure_ready E s = Some s1 \<longrightarrow>
      session_only_when_up Down (new_events s s1)
      \<and> foldl conn_step c (new_events s s1) = (Up, Connected))
   \<and> (loop E s = Some s' \<longrightarrow>
      session_only_when_up Down (new_events s s')
      \<and> foldl conn_step c (new_events s s') = (Up, Connected))
   \<and> (ensureWiFiConnection E s = Some s2 \<and> mqtt_connected E (now s2) \<longrightarrow>
      ensure_ready E s = Some (answered (MqttConnected True) s2))"
proof -
  have a: "session_only_when_up Down (new_events s s1)
      \<and> foldl conn_step c (new_events s s1) = (Up, Connected)" if "ensure_ready E s = Some s1"
  proof -
    from ensure_ready_summary[OF that] obtain ev where ev: "trace s1 = trace s @ ev"
      "session_only_when_up Down ev" "\<forall>l. foldl link_step l ev = Up"
      "\<forall>c. foldl session_step c ev = Connected"
      unfolding ready_summary_def by blast
    from ev(1) have "new_events s s1 = ev" by (rule new_events_append)
    with ev(2-4) show ?thesis by (simp add: foldl_conn_step)
  qed
  have b: "session_only_when_up Down (new_events s s')
      \<and> foldl conn_step c (new_events s s') = (Up, Connected)" if "loop E s = Some s'"
  proof (rule loop_events[OF that])
    fix s2 ev
    assume new: "new_events s s' = ev @ tick_events E (now s2) (lastReadTime s)"
      and ev: "session_only_when_up Down ev" "\<forall>l. foldl link_step l ev = Up"
        "\<forall>c. foldl session_step c ev = Connected"
    let ?tv = "tick_events E (now s2) (lastReadTime s)"
    have nolink: "\<forall>e\<in>set ?tv. \<not> is_link_event e"
      using tick_events_props[of E "now s2" "lastReadTime s" Connected] by blast
    have stays: "\<forall>e\<in>set ?tv. session_step Connected e = Connected"
      using tick_events_props[of E "now s2" "lastReadTime s" Connected] by blast
    have "session_only_when_up Up ?tv"
      using nolink by (rule sowu_no_link)
    moreover have "foldl link_step Up ?tv = Up"
      using nolink by (rule foldl_link_no_link)
    moreover have "foldl session_step Connected ?tv = Connected"
      using stays by (rule foldl_session_stays)
    ultimately show ?thesis
      using ev unfolding new by (simp add: sowu_append foldl_conn_step)
  qed
  have c: "ensure_ready E s = Some (answered (MqttConnected True) s2)"
    if "ensureWiFiConnection E s = Some s2 \<and> mqtt_connected E (now s2)"
    using that by (simp add: ensure_ready_def ensureMQTTConnection_def Let_def)
  from a b c show ?thesis by blast
qed

theorem session_calls_only_when_link_up_witness:
  "ensure_ready env_ready world_init = Some world_polled
   \<and> foldl conn_step (Down, Disconnected) (new_events world_init world_polled) = (Up, Connected)
   \<and> loop env_link_loss world_link_tick1 = Some world_link_tick2
   \<and> session_only_when_up Down (new_events world_link_tick1 world_link_tick2)
   \<and> foldl conn_step (Up, Connected) (new_events world_link_tick1 world_link_tick2) = (Up, Connected)
   \<and> ensureWiFiConnection env_link_loss world_link_tick1 = Some world_relinked
   \<and> mqtt_connected env_link_loss (now world_relinked)
   \<and> ensure_ready env_link_loss world_link_tick1 = Some (answered (MqttConnected True) world_relinked)"
proof -
  have r: "ensure_ready env_ready world_init = Some world_polled"
    by (simp add: ensure_ready_def ensureWiFiConnection_def ensureMQTTConnection_def
        env_ready_def world_init_def world_polled_def answered_def Let_def)
  have m: "mqtt_connected env_link_loss (now world_relinked)"
    by (simp add: env_link_loss_def env_ready_def)
  from session_calls_only_when_link_up[of env_ready world_init world_polled "(Down, Disconnected)"
      world_polled world_polled]
    session_calls_only_when_link_up[of env_link_loss world_link_tick1 world_polled "(Up, Connected)"
      world_link_tick2 world_relinked]
    r m link_loss_tick2 link_loss_relinked
  show ?thesis by simp
qed

subsection \<open>C5\<close>

text \<open>
  Against C5 as stated: with the link down at the first three status calls, one call of
  \<open>ensure_ready\<close> waits two times 500 ms inside \<^verbatim>\<open>connectToWiFi\<close> before it
  returns.
\<close>

theorem retry_rounds_counterexample:
  "ensure_ready env_link_late world_init = Some world_link_late
   \<and> retry_rounds (new_events world_init world_link_late) = 2
   \<and> link_waits (new_events world_init world_link_late) = 2"
  by (simp add: ensure_ready_link_late_run)
     (simp add: retry_rounds_def link_waits_def new_events_def world_init_def world_link_late_def)

text \<open>
  C5, amended. A call of \<open>ensure_ready\<close> blocks until the link and then the session
  report connected, and the number of its waits has no bound. In every call that
  returns, the waits of 500 ms are as many as the failed link checks, less the first
  check when that one failed (it starts \<^verbatim>\<open>connectToWiFi\<close> without a wait), and the
  waits of 2000 ms are as many as the refused connects; an accepted connect is followed
  by no wait. When the link is down at the first check and at the \<open>n\<close> checks that
  follow, and up at the next, the call returns after exactly \<open>n\<close> waits of 500 ms and
  none of 2000 ms. When the link is up, the session down and \<open>n\<close> connects are
  refused, after which the session reports connected or one more connect is accepted,
  the call returns after exactly \<open>n\<close> waits of 2000 ms and none of 500 ms. When the
  link, or the session, never reports connected, the call never returns.
\<close>

theorem ensure_ready_blocks_until_connected:
  "(ensure_ready E s = Some s' \<longrightarrow>
      failed_link_checks (new_events s s') =
        link_waits (new_events s s') + (if wifi_connected E (now s) then 0 else 1)
      \<and> refused_connects (new_events s s') = session_waits (new_events s s')
      \<and> retry_rounds (new_events s s') =
          link_waits (new_events s s') + session_waits (new_events s s'))
   \<and> (\<not> wifi_connected E (now s) \<and> (\<forall>i<n. \<not> wifi_connected E (now s + 1 + i))
      \<and> wifi_connected E (now s + 1 + n) \<and> mqtt_connected E (now s + 2 + n)
     \<longrightarrow> (\<exists>s'. ensure_ready E s = Some s' \<and> link_waits (new_events s s') = n
            \<and> session_waits (new_events s s') = 0))
   \<and> (wifi_connected E (now s) \<and> \<not> mqtt_connected E (now s + 1)
      \<and> (\<forall>j<n. \<not> mqtt_connected E (now s + 2 + 3 * j)
                \<and> \<not> mqtt_connect E (now s + 3 + 3 * j) ''ESP32'')
      \<and> (mqtt_connected E (now s + 2 + 3 * n) \<or>
           (mqtt_connect E (now s + 3 + 3 * n) ''ESP32'' \<and> mqtt_connected E (now s + 4 + 3 * n)))
     \<longrightarrow> (\<exists>s'. ensure_ready E s = Some s' \<and> session_waits (new_events s s') = n
            \<and> link_waits (new_events s s') = 0))
   \<and> ((\<forall>i. \<not> wifi_connected E i) \<longrightarrow> ensure_ready E s = None)
   \<and> ((\<forall>i. \<not> mqtt_connected E i) \<longrightarrow> ensure_ready E s = None)"
proof -
  have a: "failed_link_checks (new_events s s') =
        link_waits (new_events s s') + (if wifi_connected E (now s) then 0 else 1)
      \<and> refused_connects (new_events s s') = session_waits (new_events s s')
      \<and> retry_rounds (new_events s s') =
          link_waits (new_events s s') + session_waits (new_events s s')"
    if "ensure_ready E s = Some s'"
    using wait_summary_new[OF ensure_ready_waits[OF that]] retry_rounds_split
    by simp
  from a ensure_ready_link_rounds[of E s n] ensure_ready_session_rounds[of E s n]
    ensure_ready_no_link[of E s] ensure_ready_no_session[of E s]
  show ?thesis
    by blast
qed

theorem ensure_ready_blocks_until_connected_witness:
  "\<not> wifi_connected env_link_late 0 \<and> \<not> wifi_connected env_link_late 1
   \<and> \<not> wifi_connected env_link_late 2 \<and> wifi_connected env_link_late 3
   \<and> mqtt_connected env_link_late 4
   \<and> ensure_ready env_link_late world_init = Some world_link_late
   \<and> failed_link_checks (new_events world_init world_link_late) = 3
   \<and> link_waits (new_events world_init world_link_late) = 2
   \<and> session_waits (new_events world_init world_link_late) = 0
   \<and> (\<exists>s'. ensure_ready env_session_late world_init = Some s'
          \<and> session_waits (new_events world_init s') = 2
          \<and> link_waits (new_events world_init s') = 0)
   \<and> \<not> mqtt_connected env_session_accept 5 \<and> mqtt_connect env_session_accept 6 ''ESP32''
   \<and> mqtt_connected env_session_accept 7
   \<and> (\<exists>s'. ensure_ready env_session_accept world_init = Some s'
          \<and> session_waits (new_events world_init s') = 1
          \<and> link_waits (new_events world_init s') = 0)
   \<and> ensure_ready env_no_link world_init = None
   \<and> ensure_ready env_no_session world_init = None"
proof -
  have l: "\<not> wifi_connected env_link_late 0" "\<not> wifi_connected env_link_late 1"
    "\<not> wifi_connected env_link_late 2" "wifi_connected env_link_late 3"
    "mqtt_connected env_link_late 4"
    by (simp_all add: env_link_late_def env_ready_def)
  have l': "\<not> wifi_connected env_link_late (now world_init)"
    "\<forall>i<2. \<not> wifi_connected env_link_late (now world_init + 1 + i)"
    "wifi_connected env_link_late (now world_init + 1 + 2)"
    "mqtt_connected env_link_late (now world_init + 2 + 2)"
    by (simp_all add: env_link_late_def env_ready_def world_init_def)
  have m: "wifi_connected env_session_late (now world_init)"
    "\<not> mqtt_connected env_session_late (now world_init + 1)"
    "\<forall>j<2. \<not> mqtt_connected env_session_late (now world_init + 2 + 3 * j)
                \<and> \<not> mqtt_connect env_session_late (now world_init + 3 + 3 * j) ''ESP32''"
    "mqtt_connected env_session_late (now world_init + 2 + 3 * 2)"
    by (simp_all add: env_session_late_def env_ready_def world_init_def)
  have v: "wifi_connected env_session_accept (now world_init)"
    "\<not> mqtt_connected env_session_accept (now world_init + 1)"
    "\<forall>j<1. \<not> mqtt_connected env_session_accept (now world_init + 2 + 3 * j)
                \<and> \<not> mqtt_connect env_session_accept (now world_init + 3 + 3 * j) ''ESP32''"
    "mqtt_connect env_session_accept (now world_init + 3 + 3 * 1) ''ESP32''"
    "mqtt_connected env_session_accept (now world_init + 4 + 3 * 1)"
    and v': "\<not> mqtt_connected env_session_accept 5" "mqtt_connect env_session_accept 6 ''ESP32''"
    "mqtt_connected env_session_accept 7"
    by (simp_all add: env_session_accept_def env_ready_def world_init_def)
  have n: "\<forall>i. \<not> wifi_connected env_no_link i"
    by (simp add: env_no_link_def env_ready_def)
  have n': "\<forall>i. \<not> mqtt_connected env_no_session i"
    by (simp add: env_no_session_def env_ready_def)
  note t = ensure_ready_blocks_until_connected
  from t[of env_link_late world_init world_link_late 0] ensure_ready_link_late_run l(1)
  have a0: "failed_link_checks (new_events world_init world_link_late) =
      link_waits (new_events world_init world_link_late) + 1"
    by (simp add: world_init_def)
  from t[of env_link_late world_init world_link_late 2] l'
  have "\<exists>s'. ensure_ready env_link_late world_init = Some s'
      \<and> link_waits (new_events world_init s') = 2 \<and> session_waits (new_events world_init s') = 0"
    by blast
  then have a: "link_waits (new_events world_init world_link_late) = 2"
    "session_waits (new_events world_init world_link_late) = 0"
    by (simp_all add: ensure_ready_link_late_run)
  from t[of env_session_late world_init world_polled 2] m
  have b: "\<exists>s'. ensure_ready env_session_late world_init = Some s'
      \<and> session_waits (new_events world_init s') = 2 \<and> link_waits (new_events world_init s') = 0"
    by blast
  from t[of env_session_accept world_init world_polled 1] v
  have b': "\<exists>s'. ensure_ready env_session_accept world_init = Some s'
      \<and> session_waits (new_events world_init s') = 1 \<and> link_waits (new_events world_init s') = 0"
    by blast
  from t[of env_no_link world_init world_polled 0] n
  have c: "ensure_ready env_no_link world_init = None"
    by blast
  from t[of env_no_session world_init world_polled 0] n'
  have d: "ensure_ready env_no_session world_init = None"
    by blast
  from l a0 a b b' c d v' ensure_ready_link_late_run show ?thesis
    by simp
qed

subsection \<open>C6\<close>

text \<open>
  C6. In every iteration of the main loop that returns, each send to the session layer
  is preceded, in that same iteration, by an answer of the session layer that it is
  connected, with no later answer to the contrary: counted from \<open>Disconnected\<close> at the
  start of the iteration, the session state the sketch has observed is \<open>Connected\<close> at
  every send. (The session state is the one the supervisor polls; the sketch has no
  other.)
\<close>

theorem publish_only_while_connected:
  assumes "loop E s = Some s'"
  shows "trace s' = trace s @ new_events s s'
     \<and> sends_only_connected Disconnected (new_events s s')"
proof -
  from assms obtain s2 ev where s2: "ensure_ready E s = Some s2" "s' = tick_body E s2"
    "trace s2 = trace s @ ev"
    and new: "new_events s s' = ev @ tick_events E (now s2) (lastReadTime s)"
    and ev: "\<forall>e\<in>set ev. \<not> is_publish e \<and> \<not> is_sensor_read e"
      "\<forall>c. foldl session_step c ev = Connected"
    by (rule loop_events) blast
  have "trace s' = trace s @ new_events s s'"
    using s2 new by (simp add: new_events_def trace_tick)
  moreover have "sends_only_connected Disconnected ev"
    using ev(1) by (intro soc_no_publish) blast
  moreover have "sends_only_connected Connected (tick_events E (now s2) (lastReadTime s))"
    using tick_events_props[of E "now s2" "lastReadTime s" Connected]
    by (intro soc_stays) blast
  ultimately show ?thesis
    using ev(2) new by (simp add: soc_append)
qed

theorem publish_only_while_connected_witness:
  "loop env_ready world_init = Some world_ready_tick
   \<and> payloads (new_events world_init world_ready_tick) = [''0x01'']
   \<and> sends_only_connected Disconnected (new_events world_init world_ready_tick)"
proof -
  have "payloads (new_events world_init world_ready_tick) = [''0x01'']"
    by (simp add: world_ready_tick_def world_init_def new_events_def)
  with publish_only_while_connected[OF loop_ready_run] loop_ready_run show ?thesis
    by simp
qed

subsection \<open>C7\<close>

text \<open>
  C7. When the session layer answers a send with failure, \<^verbatim>\<open>publishGesture\<close> prints
  one diagnostic line and returns: the call has made exactly one send, as every call
  does, and has changed nothing but the count of calls and the events; \<^verbatim>\<open>lastReadTime\<close>
  is as before. The failure is not fatal. The iteration after a send, failed or not, is
  the iteration from the state with the call counted, with the same events added; an
  iteration returns whenever the poll of the supervisor does; and on the answers of the
  libraries the next iteration goes on to the sensing: when the link and the session
  answer that they are up, and also when the session is lost and is reconnected at the
  first attempt, the iteration returns, and its events are those of the poll followed by
  those of the sensing started at the call after the poll. When the interval has elapsed
  these are the clock, the ten events of the sampling and, for a frame that classifies
  to a gesture, its send.
\<close>

theorem publish_failure_not_fatal:
  "(\<not> mqtt_publish E (now s) mqttTopic (snprintf_0x02X 10 g) \<longrightarrow>
      publishGesture E g s =
        s\<lparr>now := Suc (now s),
          trace := trace s @ [Publish mqttTopic (snprintf_0x02X 10 g) False,
                              SerialPrintln ''Failed to publish gesture code!'']\<rparr>)
   \<and> length (filter is_publish (new_events s (publishGesture E g s))) = 1
   \<and> lastReadTime (publishGesture E g s) = lastReadTime s
   \<and> now (publishGesture E g s) = Suc (now s)
   \<and> loop E (publishGesture E g s) =
       map_option (\<lambda>s'. s'\<lparr>trace := trace (publishGesture E g s)
                                    @ new_events (s\<lparr>now := Suc (now s)\<rparr>) s'\<rparr>)
         (loop E (s\<lparr>now := Suc (now s)\<rparr>))
   \<and> (ensure_ready E s0 = Some s2 \<longrightarrow> loop E s0 = Some (tick_body E s2))
   \<and> (wifi_connected E (now s + 1) \<and> mqtt_connected E (now s + 2) \<longrightarrow>
        loop E (publishGesture E g s) = Some (tick_body E (polled_ready (publishGesture E g s)))
        \<and> new_events (publishGesture E g s) (tick_body E (polled_ready (publishGesture E g s))) =
            [WifiStatus True, MqttConnected True] @ tick_events E (now s + 3) (lastReadTime s))
   \<and> (wifi_connected E (now s + 1) \<and> \<not> mqtt_connected E (now s + 2)
        \<and> \<not> mqtt_connected E (now s + 3) \<and> mqtt_connect E (now s + 4) ''ESP32''
        \<and> mqtt_connected E (now s + 5) \<longrightarrow>
        loop E (publishGesture E g s)
          = Some (tick_body E (polled_reconnected (publishGesture E g s)))
        \<and> new_events (publishGesture E g s)
             (tick_body E (polled_reconnected (publishGesture E g s))) =
            [WifiStatus True, MqttConnected False, MqttConnected False,
             SerialPrint ''Connecting to MQTT...'', MqttConnectCall ''ESP32'',
             MqttConnectResult True, SerialPrintln ''Connected to MQTT Broker.'',
             MqttConnected True] @ tick_events E (now s + 6) (lastReadTime s))
   \<and> (readInterval \<le> millis E n - lrt \<longrightarrow>
        tick_events E n lrt =
          Millis (millis E n) # sense_events E (n + 1) @
            (if classify (frame_at E (n + 1)) \<noteq> 0
             then publish_events E (n + 8) (classify (frame_at E (n + 1))) else []))"
proof -
  define sP where "sP = publishGesture E g s"
  have nowP: "now sP = now s + 1" and lrtP: "lastReadTime sP = lastReadTime s"
    by (simp_all add: sP_def publishGesture_eq)
  have a: "length (filter is_publish (new_events s (publishGesture E g s))) = 1"
    by (simp add: new_events_publish publish_events_def)
  have b: "loop E (publishGesture E g s) =
       map_option (\<lambda>s'. s'\<lparr>trace := trace (publishGesture E g s)
                                    @ new_events (s\<lparr>now := Suc (now s)\<rparr>) s'\<rparr>)
         (loop E (s\<lparr>now := Suc (now s)\<rparr>))"
  proof -
    have "trace (publishGesture E g s) = trace s @ publish_events E (now s) g"
      by (simp add: publishGesture_retrace)
    then show ?thesis
      by (subst publishGesture_retrace) (simp only: trace_blind_eq[OF loop_blind])
  qed
  have c: "loop E sP = Some (tick_body E (polled_ready sP))
        \<and> new_events sP (tick_body E (polled_ready sP)) =
            [WifiStatus True, MqttConnected True] @ tick_events E (now s + 3) (lastReadTime s)"
    if "wifi_connected E (now s + 1) \<and> mqtt_connected E (now s + 2)"
  proof -
    have idx: "now sP + 1 = now s + 2"
      by (simp add: nowP)
    from that have "wifi_connected E (now sP)" "mqtt_connected E (now sP + 1)"
      unfolding idx unfolding nowP by blast+
    then have "ensure_ready E sP = Some (polled_ready sP)"
      by (rule ensure_ready_polled_ready)
    then have "loop E sP = Some (tick_body E (polled_ready sP))"
      by (simp add: loop_split)
    moreover have "trace (tick_body E (polled_ready sP)) =
        trace sP @ ([WifiStatus True, MqttConnected True] @ tick_events E (now s + 3) (lastReadTime s))"
      by (simp add: trace_tick polled_ready_def nowP lrtP eval_nat_numeral)
    then have "new_events sP (tick_body E (polled_ready sP)) =
        [WifiStatus True, MqttConnected True] @ tick_events E (now s + 3) (lastReadTime s)"
      by (rule new_events_append)
    ultimately show ?thesis by simp
  qed
  have d: "loop E sP = Some (tick_body E (polled_reconnected sP))
        \<and> new_events sP (tick_body E (polled_reconnected sP)) =
            [WifiStatus True, MqttConnected False, MqttConnected False,
             SerialPrint ''Connecting to MQTT...'', MqttConnectCall ''ESP32'',
             MqttConnectResult True, SerialPrintln ''Connected to MQTT Broker.'',
             MqttConnected True] @ tick_events E (now s + 6) (lastReadTime s)"
    if "wifi_connected E (now s + 1) \<and> \<not> mqtt_connected E (now s + 2)
        \<and> \<not> mqtt_connected E (now s + 3) \<and> mqtt_connect E (now s + 4) ''ESP32''
        \<and> mqtt_connected E (now s + 5)"
  proof -
    have idx: "now sP + 1 = now s + 2" "now sP + 2 = now s + 3" "now sP + 3 = now s + 4"
      "now sP + 4 = now s + 5"
      by (simp_all add: nowP)
    from that have "wifi_connected E (now sP)" "\<not> mqtt_connected E (now sP + 1)"
      "\<not> mqtt_connected E (now sP + 2)" "mqtt_connect E (now sP + 3) ''ESP32''"
      "mqtt_connected E (now sP + 4)"
      unfolding idx unfolding nowP by blast+
    then have "ensure_ready E sP = Some (polled_reconnected sP)"
      by (rule ensure_ready_polled_reconnected)
    then have "loop E sP = Some (tick_body E (polled_reconnected sP))"
      by (simp add: loop_split)
    moreover have "trace (tick_body E (polled_reconnected sP)) =
        trace sP @ ([WifiStatus True, MqttConnected False, MqttConnected False,
             SerialPrint ''Connecting to MQTT...'', MqttConnectCall ''ESP32'',
             MqttConnectResult True, SerialPrintln ''Connected to MQTT Broker.'',
             MqttConnected True] @ tick_events E (now s + 6) (lastReadTime s))"
      by (simp add: trace_tick polled_reconnected_def nowP lrtP eval_nat_numeral)
    then have "new_events sP (tick_body E (polled_reconnected sP)) =
        [WifiStatus True, MqttConnected False, MqttConnected False,
             SerialPrint ''Connecting to MQTT...'', MqttConnectCall ''ESP32'',
             MqttConnectResult True, SerialPrintln ''Connected to MQTT Broker.'',
             MqttConnected True] @ tick_events E (now s + 6) (lastReadTime s)"
      by (rule new_events_append)
    ultimately show ?thesis by simp
  qed
  have e: "publishGesture E g s =
        s\<lparr>now := Suc (now s),
          trace := trace s @ [Publish mqttTopic (snprintf_0x02X 10 g) False,
                              SerialPrintln ''Failed to publish gesture code!'']\<rparr>"
    if "\<not> mqtt_publish E (now s) mqttTopic (snprintf_0x02X 10 g)"
    using that by (simp add: publishGesture_eq)
  have f: "lastReadTime (publishGesture E g s) = lastReadTime s"
    "now (publishGesture E g s) = Suc (now s)"
    by (simp_all add: publishGesture_eq)
  have h: "loop E s0 = Some (tick_body E s2)" if "ensure_ready E s0 = Some s2"
    using that by (simp add: loop_split)
  from a b c d e f h tick_events_due[of E n lrt] show ?thesis
    unfolding sP_def by blast
qed

theorem publish_failure_not_fatal_witness:
  "\<not> mqtt_publish env_send_fails (now world_init) mqttTopic (snprintf_0x02X 10 GESTURE_FIST)
   \<and> publishGesture env_send_fails GESTURE_FIST world_init = world_send_failed
   \<and> wifi_connected env_send_fails 1 \<and> mqtt_connected env_send_fails 2
   \<and> loop env_send_fails world_send_failed = Some world_after_failure
   \<and> readInterval \<le> millis env_send_fails 3 - 0
   \<and> tick_events env_send_fails 3 0 = drop 4 (trace world_after_failure)
   \<and> payloads (new_events world_send_failed world_after_failure) = [''0x01'']
   \<and> ensure_ready env_send_fails world_init = Some world_polled
   \<and> loop env_send_fails world_init = Some (tick_body env_send_fails world_polled)
   \<and> publishGesture env_send_fails_session_lost GESTURE_FIST world_init = world_send_failed
   \<and> \<not> mqtt_connected env_send_fails_session_lost 2
   \<and> \<not> mqtt_connected env_send_fails_session_lost 3
   \<and> mqtt_connect env_send_fails_session_lost 4 ''ESP32''
   \<and> mqtt_connected env_send_fails_session_lost 5
   \<and> loop env_send_fails_session_lost world_send_failed =
       Some (tick_body env_send_fails_session_lost (polled_reconnected world_send_failed))
   \<and> payloads (new_events world_send_failed
         (tick_body env_send_fails_session_lost (polled_reconnected world_send_failed))) = [''0x01'']
   \<and> lastReadTime (tick_body env_send_fails_session_lost (polled_reconnected world_send_failed))
       = 1000"
proof -
  note t = publish_failure_not_fatal
  have f: "\<not> mqtt_publish env_send_fails (now world_init) mqttTopic (snprintf_0x02X 10 GESTURE_FIST)"
    "\<not> mqtt_publish env_send_fails_session_lost (now world_init) mqttTopic
        (snprintf_0x02X 10 GESTURE_FIST)"
    by (simp_all add: env_send_fails_def env_send_fails_session_lost_def env_ready_def)
  have r: "ensure_ready env_send_fails world_init = Some world_polled"
    by (simp add: ensure_ready_def ensureWiFiConnection_def ensureMQTTConnection_def
        env_send_fails_def env_ready_def world_init_def world_polled_def answered_def Let_def)
  with t[of env_send_fails world_init GESTURE_FIST world_init world_polled 3 0]
  have l: "loop env_send_fails world_init = Some (tick_body env_send_fails world_polled)"
    by blast
  from t[of env_send_fails world_init GESTURE_FIST world_init world_polled 3 0] f(1)
  have p: "publishGesture env_send_fails GESTURE_FIST world_init = world_send_failed"
    by (simp add: world_init_def world_send_failed_def payload_codes mqttTopic_def)
  from t[of env_send_fails_session_lost world_init GESTURE_FIST world_init world_polled 6 0] f(2)
  have p': "publishGesture env_send_fails_session_lost GESTURE_FIST world_init = world_send_failed"
    by (simp add: world_init_def world_send_failed_def payload_codes mqttTopic_def)
  have a: "wifi_connected env_send_fails 1" "mqtt_connected env_send_fails 2"
    and a': "wifi_connected env_send_fails (now world_init + 1)
       \<and> mqtt_connected env_send_fails (now world_init + 2)"
    by (simp_all add: env_send_fails_def env_ready_def world_init_def)
  have due: "readInterval \<le> millis env_send_fails 3 - 0"
    by (simp add: env_send_fails_def env_ready_def readInterval_def)
  have tb: "tick_body env_send_fails (polled_ready world_send_failed) = world_after_failure"
    by (simp add: polled_ready_def world_send_failed_def world_after_failure_def run_defs
        env_send_fails_def env_ready_def)
  from t[of env_send_fails world_init GESTURE_FIST world_init world_polled 3 0] a'
  have n: "loop env_send_fails world_send_failed = Some world_after_failure"
    unfolding p tb by blast
  from t[of env_send_fails world_init GESTURE_FIST world_init world_polled 3 0] due
  have "tick_events env_send_fails 3 0 =
          Millis (millis env_send_fails 3) # sense_events env_send_fails (3 + 1) @
            (if classify (frame_at env_send_fails (3 + 1)) \<noteq> 0
             then publish_events env_send_fails (3 + 8) (classify (frame_at env_send_fails (3 + 1)))
             else [])"
    by blast
  then have te: "tick_events env_send_fails 3 0 = drop 4 (trace world_after_failure)"
    by (simp add: world_after_failure_def sense_events_def frame_at_def classify_def
        publish_events_def debounced_def env_send_fails_def env_ready_def
        HIGH_def LOW_def GESTURE_FIST_def FLEX_SENSOR_1_PIN_def FLEX_SENSOR_2_PIN_def
        TOUCH_SENSOR_1_PIN_def TOUCH_SENSOR_2_PIN_def mqttTopic_def payload_codes [unfolded GESTURE_FIST_def])
  have pl: "payloads (new_events world_send_failed world_after_failure) = [''0x01'']"
    by (simp add: world_send_failed_def world_after_failure_def new_events_def)
  have b: "\<not> mqtt_connected env_send_fails_session_lost 2"
    "\<not> mqtt_connected env_send_fails_session_lost 3"
    "mqtt_connect env_send_fails_session_lost 4 ''ESP32''"
    "mqtt_connected env_send_fails_session_lost 5"
    and b': "wifi_connected env_send_fails_session_lost (now world_init + 1)
        \<and> \<not> mqtt_connected env_send_fails_session_lost (now world_init + 2)
        \<and> \<not> mqtt_connected env_send_fails_session_lost (now world_init + 3)
        \<and> mqtt_connect env_send_fails_session_lost (now world_init + 4) ''ESP32''
        \<and> mqtt_connected env_send_fails_session_lost (now world_init + 5)"
    by (simp_all add: env_send_fails_session_lost_def env_ready_def world_init_def)
  from t[of env_send_fails_session_lost world_init GESTURE_FIST world_init world_polled 6 0] b'
  have m: "loop env_send_fails_session_lost world_send_failed =
       Some (tick_body env_send_fails_session_lost (polled_reconnected world_send_failed))"
    and m': "new_events world_send_failed
             (tick_body env_send_fails_session_lost (polled_reconnected world_send_failed)) =
            [WifiStatus True, MqttConnected False, MqttConnected False,
             SerialPrint ''Connecting to MQTT...'', MqttConnectCall ''ESP32'',
             MqttConnectResult True, SerialPrintln ''Connected to MQTT Broker.'',
             MqttConnected True] @ tick_events env_send_fails_session_lost (now world_init + 6)
               (lastReadTime world_init)"
    unfolding p' by blast+
  have pl': "payloads (new_events world_send_failed
         (tick_body env_send_fails_session_lost (polled_reconnected world_send_failed))) = [''0x01'']"
    unfolding m'
    by (simp add: world_init_def tick_events_def sense_events_def frame_at_def classify_def
        publish_events_def debounced_def env_send_fails_session_lost_def env_ready_def
        readInterval_def HIGH_def LOW_def GESTURE_FIST_def payload_codes [unfolded GESTURE_FIST_def])
  have lr: "lastReadTime (tick_body env_send_fails_session_lost (polled_reconnected world_send_failed))
       = 1000"
    by (simp add: tick_body_eq polled_reconnected_def world_send_failed_def
        env_send_fails_session_lost_def env_ready_def readInterval_def)
  from f(1) p a n due te pl r l p' b m pl' lr show ?thesis
    by simp
qed

subsection \<open>C8\<close>

text \<open>
  Against C8 as stated: the frame of a fist with the hand tilted left lies in the valid
  sensor ranges and satisfies the guards of rule 1 and of rule 3 at once. The guards are
  not pairwise exclusive; the order of the rules decides, and the frame is a fist.
\<close>

theorem rules_exclusive_counterexample:
  "valid_frame frame_fist_left \<and> fist_guard 500 frame_fist_left \<and> left_guard (- 5) frame_fist_left
   \<and> classify frame_fist_left = GESTURE_FIST"
  by (simp add: valid_frame_def fist_guard_def left_guard_def frame_fist_left_def HIGH_def LOW_def
      classify_def word_sle_eq)

text \<open>
  C8, amended. The two flex rules exclude each other, for every pair of thresholds with
  \<open>fist_max < open_min\<close> and so at 500 and 2000; the two tilt rules exclude each
  other, for every pair of thresholds with \<open>left \<le> right\<close> and so at -5.0 and 5.0.
  A flex rule and a tilt rule can hold of the same frame; \<open>classify\<close> then returns
  the gesture of the first rule that holds, so it names one gesture per frame.
\<close>

theorem flex_rules_exclusive_tilt_rules_exclusive:
  "(fist_max <s open_min \<longrightarrow> \<not> (fist_guard fist_max f \<and> open_hand_guard open_min f))
   \<and> (left_threshold \<le> right_threshold \<longrightarrow>
        \<not> (left_guard left_threshold f \<and> right_guard right_threshold f))
   \<and> \<not> (fist_guard 500 f \<and> open_hand_guard 2000 f)
   \<and> \<not> (left_guard (- 5) f \<and> right_guard 5 f)
   \<and> classify f =
       (if fist_guard 500 f then GESTURE_FIST
        else if open_hand_guard 2000 f then GESTURE_OPEN_HAND
        else if left_guard (- 5) f then GESTURE_LEFT
        else if right_guard 5 f then GESTURE_RIGHT
        else 0)"
proof -
  have a: "\<not> (fist_guard fm f \<and> open_hand_guard om f)" if "fm <s om" for fm om
    using that by (auto simp: fist_guard_def open_hand_guard_def word_sless_alt)
  have b: "\<not> (left_guard tl f \<and> right_guard tr f)" if "tl \<le> tr" for tl tr
    using that float_less_asym[of "accelX f" tl tr]
    by (auto simp: left_guard_def right_guard_def)
  have c: "\<not> (fist_guard 500 f \<and> open_hand_guard 2000 f)"
    by (rule a) simp
  have d: "\<not> (left_guard (- 5) f \<and> right_guard 5 f)"
    by (rule b) simp
  from a[of fist_max open_min] b[of left_threshold right_threshold] c d classify_guards[of f]
  show ?thesis
    by blast
qed

theorem flex_rules_exclusive_tilt_rules_exclusive_witness:
  "(500 :: c_int) <s 2000 \<and> (- 5 :: real) \<le> 5
   \<and> fist_guard 500 frame_fist_left \<and> \<not> open_hand_guard 2000 frame_fist_left
   \<and> left_guard (- 5) frame_fist_left \<and> \<not> right_guard 5 frame_fist_left"
proof -
  have "fist_guard 500 frame_fist_left" "left_guard (- 5) frame_fist_left"
    by (simp_all add: fist_guard_def left_guard_def frame_fist_left_def HIGH_def)
  with flex_rules_exclusive_tilt_rules_exclusive[of 500 2000 frame_fist_left "- 5" 5]
  show ?thesis by simp
qed

subsection \<open>C9\<close>

text \<open>
  C9. Whatever the sensors answer, \<^verbatim>\<open>detectGesture\<close> returns one of the five values
  0, 1, 2, 3, 4. Hence every payload sent in an iteration of the main loop is one of
  \<open>0x01\<close>, \<open>0x02\<close>, \<open>0x03\<close>, \<open>0x04\<close>, and for the four codes the
  formatted text with its terminating byte fits the buffer of 10 bytes:
  \<^verbatim>\<open>snprintf\<close> cuts nothing off.
\<close>

theorem gesture_codes_and_payloads:
  "fst (detectGesture E s) \<in> {0x00, 0x01, 0x02, 0x03, 0x04}
   \<and> (loop E s = Some s' \<longrightarrow>
        set (payloads (new_events s s')) \<subseteq> {''0x01'', ''0x02'', ''0x03'', ''0x04''})
   \<and> (g \<in> {0x01, 0x02, 0x03, 0x04} \<longrightarrow>
        snprintf_0x02X 10 g = format_0x02X g \<and> length (format_0x02X g) + 1 \<le> 10)"
proof -
  have a: "fst (detectGesture E s) \<in> {0x00, 0x01, 0x02, 0x03, 0x04}"
    using classify_range[of "frame_at E (now s)"]
    by (simp add: detectGesture_eq GESTURE_FIST_def GESTURE_OPEN_HAND_def GESTURE_LEFT_def
        GESTURE_RIGHT_def)
  have b: "set (payloads (new_events s s')) \<subseteq> {''0x01'', ''0x02'', ''0x03'', ''0x04''}"
    if "loop E s = Some s'"
  proof (rule loop_events[OF that])
    fix s2 ev
    assume new: "new_events s s' = ev @ tick_events E (now s2) (lastReadTime s)"
      and ev: "\<forall>e\<in>set ev. \<not> is_publish e \<and> \<not> is_sensor_read e"
    have "payloads ev = []"
      using ev by (intro payloads_no_publish) blast
    then show ?thesis
      using new payloads_tick_events[of E "now s2" "lastReadTime s"]
      by (simp add: payloads_append)
  qed
  have c: "snprintf_0x02X 10 g = format_0x02X g \<and> length (format_0x02X g) + 1 \<le> 10"
    if "g \<in> {0x01, 0x02, 0x03, 0x04}"
    using that
    by (elim insertE emptyE)
      (simp_all add: snprintf_0x02X_def format_0x02X_def zero_pad_def hex_upper.simps hex_digit_def)
  from a b c show ?thesis by blast
qed

theorem gesture_codes_and_payloads_witness:
  "loop env_ready world_init = Some world_ready_tick
   \<and> payloads (new_events world_init world_ready_tick) = [''0x01'']
   \<and> fst (detectGesture env_ready world_init) = 1
   \<and> snprintf_0x02X 10 1 = ''0x01'' \<and> format_0x02X 1 = ''0x01''"
proof -
  have "payloads (new_events world_init world_ready_tick) = [''0x01'']"
    by (simp add: world_ready_tick_def world_init_def new_events_def)
  moreover have "fst (detectGesture env_ready world_init) = 1"
    by (simp add: detectGesture_eq run_defs env_ready_def)
  moreover have "format_0x02X 1 = ''0x01''"
    by (simp add: format_0x02X_def zero_pad_def hex_upper.simps hex_digit_def)
  ultimately show ?thesis
    using gesture_codes_and_payloads[of env_ready world_init world_ready_tick 1] loop_ready_run
    by simp
qed

subsection \<open>C10\<close>

text \<open>
  C10. The test \<^verbatim>\<open>currentTime - lastReadTime >= readInterval\<close> on 32-bit unsigned
  values holds exactly when the time elapsed modulo \<open>2^32\<close> is at least 500, for
  every pair of timestamps. Every iteration first polls the supervisor, whatever the
  clock says, and a poll that returns has asked the link and the session for their
  status; the sensors are read in the iteration exactly when the test holds, and
  \<^verbatim>\<open>lastReadTime\<close> is then set to the current time and otherwise kept.
\<close>

theorem tick_gate_mod32:
  "(readInterval \<le> cur - lrt \<longleftrightarrow> 500 \<le> (uint cur - uint lrt) mod 2 ^ 32)
   \<and> loop E s = (case ensure_ready E s of None \<Rightarrow> None | Some s2 \<Rightarrow> Some (tick_body E s2))
   \<and> (ensure_ready E s = Some s1 \<longrightarrow>
        WifiStatus True \<in> set (new_events s s1) \<and> MqttConnected True \<in> set (new_events s s1)
        \<and> lastReadTime s1 = lastReadTime s)
   \<and> ((\<exists>e\<in>set (new_events s2 (tick_body E s2)). is_sensor_read e) \<longleftrightarrow>
        500 \<le> (uint (millis E (now s2)) - uint (lastReadTime s2)) mod 2 ^ 32)
   \<and> lastReadTime (tick_body E s2) =
       (if 500 \<le> (uint (millis E (now s2)) - uint (lastReadTime s2)) mod 2 ^ 32
        then millis E (now s2) else lastReadTime s2)"
proof -
  have a: "WifiStatus True \<in> set (new_events s s1) \<and> MqttConnected True \<in> set (new_events s s1)
        \<and> lastReadTime s1 = lastReadTime s" if "ensure_ready E s = Some s1"
    using ensure_ready_summary[OF that] unfolding ready_summary_def
    by (auto simp: new_events_def)
  have b: "(\<exists>e\<in>set (new_events s2 (tick_body E s2)). is_sensor_read e) \<longleftrightarrow>
        500 \<le> (uint (millis E (now s2)) - uint (lastReadTime s2)) mod 2 ^ 32"
    by (simp only: new_events_tick sensor_read_tick_events gate_mod32)
  have c: "lastReadTime (tick_body E s2) =
       (if 500 \<le> (uint (millis E (now s2)) - uint (lastReadTime s2)) mod 2 ^ 32
        then millis E (now s2) else lastReadTime s2)"
    by (simp add: tick_body_eq gate_mod32)
  from a b c show ?thesis
    using gate_mod32[of cur lrt] loop_split[of E s] by blast
qed

theorem tick_gate_mod32_witness:
  "ensure_ready env_wrapped_clock world_before_wrap = Some world_polled_wrap
   \<and> WifiStatus True \<in> set (new_events world_before_wrap world_polled_wrap)
   \<and> MqttConnected True \<in> set (new_events world_before_wrap world_polled_wrap)
   \<and> (uint (0x100 :: c_ulong) - uint (0xFFFFFF00 :: c_ulong)) mod 2 ^ 32 = 512
   \<and> readInterval \<le> (0x100 :: c_ulong) - 0xFFFFFF00
   \<and> lastReadTime (tick_body env_wrapped_clock world_polled_wrap) = 0x100
   \<and> (uint (0 :: c_ulong) - uint (0 :: c_ulong)) mod 2 ^ 32 = 0
   \<and> lastReadTime (tick_body env_link_loss world_polled) = 0
   \<and> new_events world_polled (tick_body env_link_loss world_polled) = [Millis 0]"
proof -
  have r: "ensure_ready env_wrapped_clock world_before_wrap = Some world_polled_wrap"
    by (simp add: ensure_ready_def ensureWiFiConnection_def ensureMQTTConnection_def
        env_wrapped_clock_def env_ready_def world_before_wrap_def world_polled_wrap_def
        answered_def Let_def)
  have m: "millis env_wrapped_clock (now world_polled_wrap) = 0x100"
    "lastReadTime world_polled_wrap = 0xFFFFFF00"
    "millis env_link_loss (now world_polled) = 0" "lastReadTime world_polled = 0"
    by (simp_all add: env_wrapped_clock_def env_link_loss_def env_ready_def
        world_polled_wrap_def world_polled_def)
  have n: "new_events world_polled (tick_body env_link_loss world_polled) = [Millis 0]"
    by (simp add: new_events_tick tick_events_def m readInterval_def)
  show ?thesis
    using tick_gate_mod32[of "0x100" "0xFFFFFF00" env_wrapped_clock world_before_wrap
        world_polled_wrap world_polled_wrap]
      tick_gate_mod32[of 0 0 env_link_loss world_polled world_polled world_polled]
      r m n
    by simp
qed

end
